theory Spec2Isabelle
  imports Main "HOL-Library.Word"
begin

unbundle bit_operations_syntax

section \<open>Machine types\<close>

type_synonym byte = "8 word"
type_synonym uint16 = "16 word"
type_synonym uint32 = "32 word"
type_synonym uint64 = "64 word"

section \<open>internal/modbus/client.go: CRC-16\<close>

text \<open>
  The inner loop of \<open>calculateCRC\<close>, \<^verbatim>\<open>for j := 8; j != 0; j--\<close>: the argument
  counts the iterations that remain.
\<close>

fun crcShift :: "nat \<Rightarrow> uint16 \<Rightarrow> uint16" where
  "crcShift 0 crc = crc"
| "crcShift (Suc j) crc =
     crcShift j (if crc AND 0x0001 \<noteq> 0 then drop_bit 1 crc XOR 0xA001 else drop_bit 1 crc)"

text \<open>The outer loop over the bytes of \<open>data\<close>, the running \<open>crc\<close> as accumulator.\<close>

fun crcLoop :: "byte list \<Rightarrow> uint16 \<Rightarrow> uint16" where
  "crcLoop [] crc = crc"
| "crcLoop (b # bs) crc = crcLoop bs (crcShift 8 (crc XOR ucast b))"

text \<open>
  \<open>calculateCRC\<close> starts from \<open>0xFFFF\<close> and returns the register with its two bytes
  exchanged: \<^verbatim>\<open>return (crc >> 8) | (crc << 8)\<close>.
\<close>

definition calculateCRC :: "byte list \<Rightarrow> uint16" where
  "calculateCRC data = (let crc = crcLoop data 0xFFFF in drop_bit 8 crc OR push_bit 8 crc)"

section \<open>pkg/datatypes: data model\<close>

text \<open>
  The constants of the enumeration \<open>DataType\<close>. The \<open>default\<close> branches of the source's
  switches are taken only by integers outside the enumeration and have no counterpart here.
\<close>

datatype DataType =
  BYTE | INT16 | UINT16 | INT32 | UINT32 | INT64 | UINT64
  | FLOAT32 | FLOAT64 | BOOL | ASCII | UNIX_TIMESTAMP

datatype ByteOrder = AB | BA

datatype WordOrder = WORD_1234 | WORD_4321

fun RegistersPerValue :: "DataType \<Rightarrow> nat" where
  "RegistersPerValue BYTE = 1"
| "RegistersPerValue INT16 = 1"
| "RegistersPerValue UINT16 = 1"
| "RegistersPerValue BOOL = 1"
| "RegistersPerValue INT32 = 2"
| "RegistersPerValue UINT32 = 2"
| "RegistersPerValue FLOAT32 = 2"
| "RegistersPerValue UNIX_TIMESTAMP = 2"
| "RegistersPerValue INT64 = 4"
| "RegistersPerValue UINT64 = 4"
| "RegistersPerValue FLOAT64 = 4"
| "RegistersPerValue ASCII = 1"

record Converter =
  byteOrder :: ByteOrder
  wordOrder :: WordOrder

definition NewConverter :: "ByteOrder \<Rightarrow> WordOrder \<Rightarrow> Converter" where
  "NewConverter bo wo = \<lparr>byteOrder = bo, wordOrder = wo\<rparr>"

text \<open>
  The dynamically typed results (\<^verbatim>\<open>interface{}\<close>), one constructor per Go type that
  the converter produces or accepts. Signed integers are kept as their two's-complement
  bit pattern (\<^verbatim>\<open>int16(reg)\<close> and \<^verbatim>\<open>uint16(val)\<close> keep the bits; \<open>sint\<close> reads the
  value), and floating-point numbers as their IEEE-754 bit pattern, which is what
  \<^verbatim>\<open>math.Float32frombits\<close> and \<^verbatim>\<open>math.Float32bits\<close> exchange. A Go string is its
  sequence of bytes, one \<open>char\<close> each.
\<close>

datatype gvalue =
  ByteSlice "byte list"
  | Int16Slice "uint16 list"
  | Uint16Slice "uint16 list"
  | Int32Slice "uint32 list"
  | Uint32Slice "uint32 list"
  | Int64Slice "uint64 list"
  | Uint64Slice "uint64 list"
  | Float32Slice "uint32 list"
  | Float64Slice "uint64 list"
  | BoolSlice "bool list"
  | String string

text \<open>
  The errors of the two packages by kind; \<open>NilDereference\<close> and \<open>IndexOutOfRange\<close>
  stand for the run-time panics of Go.
\<close>

datatype transportError = Timeout | ModbusException byte | IOFailure

datatype error =
  EmptyRegisters
  | UnsupportedConversion
  | ValueStringEmpty
  | InvalidValue DataType string
  | UnsupportedParse DataType
  | NotConnected
  | NilDereference
  | IndexOutOfRange
  | ReadFailed transportError
  | WriteFailed transportError
  | ConversionFailed error
  | ConnectFailed
  | CloseFailed

text \<open>\<^verbatim>\<open>string(chars)\<close> and \<^verbatim>\<open>[]byte(value)\<close>: the same bytes under the other type.\<close>

definition stringOfBytes :: "byte list \<Rightarrow> string" where
  "stringOfBytes bs = map (\<lambda>b. char_of (unat b)) bs"

definition bytesOfString :: "string \<Rightarrow> byte list" where
  "bytesOfString s = map (\<lambda>c. of_nat (of_char c)) s"

section \<open>pkg/datatypes: registers to values\<close>

text \<open>The two bytes of one register in the order the converter is configured with.\<close>

definition regBytes :: "Converter \<Rightarrow> uint16 \<Rightarrow> byte list" where
  "regBytes c reg =
     (if byteOrder c = AB then [ucast (drop_bit 8 reg), ucast (reg AND 0xFF)]
      else [ucast (reg AND 0xFF), ucast (drop_bit 8 reg)])"

fun convertToBytes :: "Converter \<Rightarrow> uint16 list \<Rightarrow> byte list" where
  "convertToBytes c [] = []"
| "convertToBytes c (reg # regs) = regBytes c reg @ convertToBytes c regs"

definition convertToInt16Array :: "Converter \<Rightarrow> uint16 list \<Rightarrow> uint16 list" where
  "convertToInt16Array c registers = map (\<lambda>reg. reg) registers"

definition convertToUint16Array :: "Converter \<Rightarrow> uint16 list \<Rightarrow> uint16 list" where
  "convertToUint16Array c registers = registers"

text \<open>
  The loop shared by \<open>convertToInt32Array\<close>, \<open>convertToUint32Array\<close> and
  \<open>convertToFloat32Array\<close>: \<^verbatim>\<open>for i := 0; i < len(registers); i += 2\<close>, appending a value
  only when \<^verbatim>\<open>i+1 < len(registers)\<close>.
\<close>

function loop32 :: "WordOrder \<Rightarrow> uint16 list \<Rightarrow> nat \<Rightarrow> uint32 list \<Rightarrow> uint32 list" where
  "loop32 wo registers i result =
     (if i < length registers then
        loop32 wo registers (i + 2)
          (if i + 1 < length registers then
             result @ [if wo = WORD_1234
                       then push_bit 16 (ucast (registers ! i)) OR ucast (registers ! (i + 1))
                       else push_bit 16 (ucast (registers ! (i + 1))) OR ucast (registers ! i)]
           else result)
      else result)"
  by pat_completeness auto
termination
  by (relation "measure (\<lambda>(wo, registers, i, result). length registers - i)") auto

definition convertToInt32Array :: "Converter \<Rightarrow> uint16 list \<Rightarrow> uint32 list" where
  "convertToInt32Array c registers = loop32 (wordOrder c) registers 0 []"

definition convertToUint32Array :: "Converter \<Rightarrow> uint16 list \<Rightarrow> uint32 list" where
  "convertToUint32Array c registers = loop32 (wordOrder c) registers 0 []"

definition convertToFloat32Array :: "Converter \<Rightarrow> uint16 list \<Rightarrow> uint32 list" where
  "convertToFloat32Array c registers = loop32 (wordOrder c) registers 0 []"

text \<open>
  The loop shared by the three 64-bit conversions: steps of four registers, a value only
  when \<^verbatim>\<open>i+3 < len(registers)\<close>.
\<close>

function loop64 :: "WordOrder \<Rightarrow> uint16 list \<Rightarrow> nat \<Rightarrow> uint64 list \<Rightarrow> uint64 list" where
  "loop64 wo registers i result =
     (if i < length registers then
        loop64 wo registers (i + 4)
          (if i + 3 < length registers then
             result @ [if wo = WORD_1234
                       then push_bit 48 (ucast (registers ! i))
                            OR push_bit 32 (ucast (registers ! (i + 1)))
                            OR push_bit 16 (ucast (registers ! (i + 2)))
                            OR ucast (registers ! (i + 3))
                       else push_bit 48 (ucast (registers ! (i + 3)))
                            OR push_bit 32 (ucast (registers ! (i + 2)))
                            OR push_bit 16 (ucast (registers ! (i + 1)))
                            OR ucast (registers ! i)]
           else result)
      else result)"
  by pat_completeness auto
termination
  by (relation "measure (\<lambda>(wo, registers, i, result). length registers - i)") auto

definition convertToInt64Array :: "Converter \<Rightarrow> uint16 list \<Rightarrow> uint64 list" where
  "convertToInt64Array c registers = loop64 (wordOrder c) registers 0 []"

definition convertToUint64Array :: "Converter \<Rightarrow> uint16 list \<Rightarrow> uint64 list" where
  "convertToUint64Array c registers = loop64 (wordOrder c) registers 0 []"

definition convertToFloat64Array :: "Converter \<Rightarrow> uint16 list \<Rightarrow> uint64 list" where
  "convertToFloat64Array c registers = loop64 (wordOrder c) registers 0 []"

fun convertToBoolArray :: "Converter \<Rightarrow> uint16 list \<Rightarrow> bool list" where
  "convertToBoolArray c [] = []"
| "convertToBoolArray c (reg # regs) =
     map (\<lambda>i. reg AND push_bit i 1 \<noteq> 0) [0..<16] @ convertToBoolArray c regs"

text \<open>
  \<^verbatim>\<open>strings.TrimRight(s, "\x00")\<close>: with a cutset of one ASCII byte the library removes
  that byte from the end for as long as it is the last one.
\<close>

definition TrimRight :: "string \<Rightarrow> char \<Rightarrow> string" where
  "TrimRight s cutset = rev (dropWhile (\<lambda>x. x = cutset) (rev s))"

fun asciiChars :: "Converter \<Rightarrow> uint16 list \<Rightarrow> byte list" where
  "asciiChars c [] = []"
| "asciiChars c (reg # regs) = regBytes c reg @ asciiChars c regs"

definition convertToASCII :: "Converter \<Rightarrow> uint16 list \<Rightarrow> string" where
  "convertToASCII c registers = TrimRight (stringOfBytes (asciiChars c registers)) (CHR 0x00)"

text \<open>The placeholder returned for fewer than two registers, as its UTF-8 bytes.\<close>

definition invalidTimestamp :: string where
  "invalidTimestamp = map char_of
     [0xE6, 0x97, 0xA0, 0xE6, 0x95, 0x88, 0xE6, 0x97, 0xB6, 0xE9, 0x97, 0xB4, 0xE6, 0x88, 0xB3 :: nat]"

text \<open>
  \<open>convertToTimestamp\<close> formats the epoch seconds through \<^verbatim>\<open>time.Unix\<close> and
  \<^verbatim>\<open>Format\<close> in the local time zone; that library function is the parameter
  \<open>formatTime\<close>.
\<close>

fun convertToTimestamp :: "Converter \<Rightarrow> (uint32 \<Rightarrow> string) \<Rightarrow> uint16 list \<Rightarrow> string" where
  "convertToTimestamp c formatTime (r0 # r1 # regs) =
     formatTime (if wordOrder c = WORD_1234 then push_bit 16 (ucast r0) OR ucast r1
                 else push_bit 16 (ucast r1) OR ucast r0)"
| "convertToTimestamp c formatTime regs = invalidTimestamp"

definition ConvertFromRegisters ::
  "Converter \<Rightarrow> (uint32 \<Rightarrow> string) \<Rightarrow> uint16 list \<Rightarrow> DataType \<Rightarrow> error + gvalue" where
  "ConvertFromRegisters c formatTime registers dataType =
     (if length registers = 0 then Inl EmptyRegisters
      else case dataType of
        BYTE \<Rightarrow> Inr (ByteSlice (convertToBytes c registers))
      | INT16 \<Rightarrow> Inr (Int16Slice (convertToInt16Array c registers))
      | UINT16 \<Rightarrow> Inr (Uint16Slice (convertToUint16Array c registers))
      | INT32 \<Rightarrow> Inr (Int32Slice (convertToInt32Array c registers))
      | UINT32 \<Rightarrow> Inr (Uint32Slice (convertToUint32Array c registers))
      | INT64 \<Rightarrow> Inr (Int64Slice (convertToInt64Array c registers))
      | UINT64 \<Rightarrow> Inr (Uint64Slice (convertToUint64Array c registers))
      | FLOAT32 \<Rightarrow> Inr (Float32Slice (convertToFloat32Array c registers))
      | FLOAT64 \<Rightarrow> Inr (Float64Slice (convertToFloat64Array c registers))
      | BOOL \<Rightarrow> Inr (BoolSlice (convertToBoolArray c registers))
      | ASCII \<Rightarrow> Inr (String (convertToASCII c registers))
      | UNIX_TIMESTAMP \<Rightarrow> Inr (String (convertToTimestamp c formatTime registers)))"

section \<open>pkg/datatypes: values to registers\<close>

definition uint32ToRegisters :: "Converter \<Rightarrow> uint32 \<Rightarrow> uint16 list" where
  "uint32ToRegisters c v =
     (if wordOrder c = WORD_1234 then [ucast (drop_bit 16 v), ucast (v AND 0xFFFF)]
      else [ucast (v AND 0xFFFF), ucast (drop_bit 16 v)])"

definition int32ToRegisters :: "Converter \<Rightarrow> uint32 \<Rightarrow> uint16 list" where
  "int32ToRegisters c v = (let bits = v in
     if wordOrder c = WORD_1234 then [ucast (drop_bit 16 bits), ucast (bits AND 0xFFFF)]
     else [ucast (bits AND 0xFFFF), ucast (drop_bit 16 bits)])"

definition float32ToRegisters :: "Converter \<Rightarrow> uint32 \<Rightarrow> uint16 list" where
  "float32ToRegisters c v = (let bits = v in
     if wordOrder c = WORD_1234 then [ucast (drop_bit 16 bits), ucast (bits AND 0xFFFF)]
     else [ucast (bits AND 0xFFFF), ucast (drop_bit 16 bits)])"

definition uint64ToRegisters :: "Converter \<Rightarrow> uint64 \<Rightarrow> uint16 list" where
  "uint64ToRegisters c v = (let bits = v in
     if wordOrder c = WORD_1234
     then [ucast (drop_bit 48 bits), ucast (drop_bit 32 bits),
           ucast (drop_bit 16 bits), ucast (bits AND 0xFFFF)]
     else [ucast (bits AND 0xFFFF), ucast (drop_bit 16 bits),
           ucast (drop_bit 32 bits), ucast (drop_bit 48 bits)])"

definition int64ToRegisters :: "Converter \<Rightarrow> uint64 \<Rightarrow> uint16 list" where
  "int64ToRegisters c v = (let bits = v in
     if wordOrder c = WORD_1234
     then [ucast (drop_bit 48 bits), ucast (drop_bit 32 bits),
           ucast (drop_bit 16 bits), ucast (bits AND 0xFFFF)]
     else [ucast (bits AND 0xFFFF), ucast (drop_bit 16 bits),
           ucast (drop_bit 32 bits), ucast (drop_bit 48 bits)])"

definition float64ToRegisters :: "Converter \<Rightarrow> uint64 \<Rightarrow> uint16 list" where
  "float64ToRegisters c v = (let bits = v in
     if wordOrder c = WORD_1234
     then [ucast (drop_bit 48 bits), ucast (drop_bit 32 bits),
           ucast (drop_bit 16 bits), ucast (bits AND 0xFFFF)]
     else [ucast (bits AND 0xFFFF), ucast (drop_bit 16 bits),
           ucast (drop_bit 32 bits), ucast (drop_bit 48 bits)])"

text \<open>
  The loop of \<open>asciiToRegisters\<close> reads \<^verbatim>\<open>bytes[i]\<close> and \<^verbatim>\<open>bytes[i+1]\<close> in steps of
  two. A single remaining byte would make \<^verbatim>\<open>bytes[i+1]\<close> panic; the padding before the
  loop makes the length even, so the result is \<open>None\<close> for no input the caller passes.
\<close>

fun asciiPairs :: "Converter \<Rightarrow> byte list \<Rightarrow> uint16 list option" where
  "asciiPairs c [] = Some []"
| "asciiPairs c [b] = None"
| "asciiPairs c (b0 # b1 # bs) =
     (case asciiPairs c bs of
        None \<Rightarrow> None
      | Some regs \<Rightarrow>
          Some ((if byteOrder c = AB then push_bit 8 (ucast b0) OR ucast b1
                 else push_bit 8 (ucast b1) OR ucast b0) # regs))"

definition asciiPad :: "byte list \<Rightarrow> byte list" where
  "asciiPad bytes = (if length bytes mod 2 \<noteq> 0 then bytes @ [0] else bytes)"

definition asciiToRegisters :: "Converter \<Rightarrow> string \<Rightarrow> uint16 list option" where
  "asciiToRegisters c v = asciiPairs c (asciiPad (bytesOfString v))"

text \<open>
  \<open>ConvertToRegisters\<close> switches on the dynamic type of the value; \<^verbatim>\<open>[]byte\<close> and
  \<^verbatim>\<open>[]bool\<close> have no case and fall to the \<open>default\<close> error.
\<close>

fun ConvertToRegisters :: "Converter \<Rightarrow> gvalue \<Rightarrow> error + uint16 list" where
  "ConvertToRegisters c (Int16Slice v) = Inr (map (\<lambda>val. val) v)"
| "ConvertToRegisters c (Uint16Slice v) = Inr v"
| "ConvertToRegisters c (Int32Slice v) = Inr (concat (map (int32ToRegisters c) v))"
| "ConvertToRegisters c (Uint32Slice v) = Inr (concat (map (uint32ToRegisters c) v))"
| "ConvertToRegisters c (Int64Slice v) = Inr (concat (map (int64ToRegisters c) v))"
| "ConvertToRegisters c (Uint64Slice v) = Inr (concat (map (uint64ToRegisters c) v))"
| "ConvertToRegisters c (Float32Slice v) = Inr (concat (map (float32ToRegisters c) v))"
| "ConvertToRegisters c (Float64Slice v) = Inr (concat (map (float64ToRegisters c) v))"
| "ConvertToRegisters c (String v) =
     (case asciiToRegisters c v of None \<Rightarrow> Inl IndexOutOfRange | Some regs \<Rightarrow> Inr regs)"
| "ConvertToRegisters c (ByteSlice v) = Inl UnsupportedConversion"
| "ConvertToRegisters c (BoolSlice v) = Inl UnsupportedConversion"

section \<open>internal/modbus/client.go: the client\<close>

datatype ConnectionType = TCP | RTU

text \<open>
  The two handlers of the transport library that the client stores behind
  \<^verbatim>\<open>io.Closer\<close>; only the TCP handler carries a \<open>SlaveId\<close>.
\<close>

datatype handler = TCPClientHandler (SlaveId: byte) | RTUClientHandler

text \<open>
  The struct \<open>Client\<close>. The field \<open>client\<close> holds whether the library client is
  non-nil, \<open>handler\<close> is \<open>None\<close> for nil, and the two packets are \<open>None\<close> for a nil
  slice. The mutexes have no counterpart in a sequential model.
\<close>

record Client =
  client :: bool
  handler :: "handler option"
  connectionType :: ConnectionType
  isConnected :: bool
  converter :: Converter
  lastSentPacket :: "byte list option"
  lastReceivedPacket :: "byte list option"
  transactionID :: uint16

definition NewClient :: Client where
  "NewClient =
     \<lparr>client = False, handler = None, connectionType = TCP, isConnected = False,
      converter = NewConverter AB WORD_1234, lastSentPacket = None,
      lastReceivedPacket = None, transactionID = 0\<rparr>"

text \<open>
  \<open>ConnectTCP\<close> and \<open>ConnectRTU\<close>: the outcome of \<^verbatim>\<open>handler.Connect()\<close> is the
  argument \<open>connectErr\<close> (\<open>None\<close> for nil).
\<close>

definition ConnectTCP :: "Client \<Rightarrow> error option \<Rightarrow> error option \<times> Client" where
  "ConnectTCP c connectErr =
     (case connectErr of
        Some err \<Rightarrow> (Some err, c)
      | None \<Rightarrow>
          (None, c\<lparr>client := True, handler := Some (TCPClientHandler 0),
                   connectionType := TCP, isConnected := True\<rparr>))"

definition ConnectRTU :: "Client \<Rightarrow> error option \<Rightarrow> error option \<times> Client" where
  "ConnectRTU c connectErr =
     (case connectErr of
        Some err \<Rightarrow> (Some err, c)
      | None \<Rightarrow>
          (None, c\<lparr>client := True, handler := Some RTUClientHandler,
                   connectionType := RTU, isConnected := True\<rparr>))"

text \<open>\<open>Disconnect\<close>: the outcome of \<^verbatim>\<open>c.handler.Close()\<close> is the argument \<open>closeErr\<close>.\<close>

definition Disconnect :: "Client \<Rightarrow> error option \<Rightarrow> error option \<times> Client" where
  "Disconnect c closeErr =
     (if handler c = None then (None, c)
      else
        let c' = c\<lparr>handler := None, client := False\<rparr>
        in (case closeErr of Some err \<Rightarrow> (Some err, c') | None \<Rightarrow> (None, c')))"

definition IsClientReady :: "Client \<Rightarrow> bool" where
  "IsClientReady c = client c"

definition SetDataConverter :: "Client \<Rightarrow> ByteOrder \<Rightarrow> WordOrder \<Rightarrow> Client" where
  "SetDataConverter c bo wo = c\<lparr>converter := NewConverter bo wo\<rparr>"

definition IsConnected :: "Client \<Rightarrow> bool" where
  "IsConnected c = isConnected c"

definition GetLastPackets :: "Client \<Rightarrow> byte list option \<times> byte list option" where
  "GetLastPackets c = (lastSentPacket c, lastReceivedPacket c)"

text \<open>\<^verbatim>\<open>binary.BigEndian.PutUint16\<close>: the high byte, then the low byte.\<close>

definition PutUint16 :: "uint16 \<Rightarrow> byte list" where
  "PutUint16 v = [ucast (drop_bit 8 v), ucast v]"

fun bytesToUint16Array :: "byte list \<Rightarrow> uint16 list" where
  "bytesToUint16Array (b0 # b1 # bs) =
     (push_bit 8 (ucast b0) OR ucast b1) # bytesToUint16Array bs"
| "bytesToUint16Array bs = []"

definition uint16ArrayToBytes :: "uint16 list \<Rightarrow> byte list" where
  "uint16ArrayToBytes data = concat (map PutUint16 data)"

text \<open>
  The switch of \<open>recordADU\<close> that rebuilds the response PDU from the request's function
  code and the data returned by the library; the source has it once per transport.
\<close>

definition fullResponsePDU :: "byte \<Rightarrow> byte list \<Rightarrow> byte list" where
  "fullResponsePDU requestFuncCode responsePDU =
     (if requestFuncCode \<in> {0x01, 0x02, 0x03, 0x04}
      then requestFuncCode # of_nat (length responsePDU) # responsePDU
      else if requestFuncCode \<in> {0x05, 0x06, 0x0F, 0x10}
      then requestFuncCode # responsePDU
      else responsePDU)"

text \<open>
  \<open>recordADU\<close>. A nil \<open>responsePDU\<close> is \<open>None\<close>. With a response the function reads
  \<^verbatim>\<open>requestPDU[0]\<close>, which panics on an empty request: the result \<open>None\<close>.
\<close>

definition recordADU ::
  "Client \<Rightarrow> byte list \<Rightarrow> byte list option \<Rightarrow> byte \<Rightarrow> Client option" where
  "recordADU c requestPDU responsePDU slaveID =
     (if connectionType c = TCP then
        let tid = transactionID c + 1;
            header = PutUint16 tid @ PutUint16 0
                     @ PutUint16 (of_nat (length requestPDU + 1)) @ [slaveID];
            c1 = c\<lparr>transactionID := tid, lastSentPacket := Some (header @ requestPDU)\<rparr>
        in (case responsePDU of
              Some resp \<Rightarrow>
                (case requestPDU of
                   [] \<Rightarrow> None
                 | requestFuncCode # _ \<Rightarrow>
                     let full = fullResponsePDU requestFuncCode resp;
                         responseHeader = PutUint16 tid @ PutUint16 0
                                          @ PutUint16 (of_nat (length full + 1)) @ [slaveID]
                     in Some (c1\<lparr>lastReceivedPacket := Some (responseHeader @ full)\<rparr>))
            | None \<Rightarrow> Some (c1\<lparr>lastReceivedPacket := None\<rparr>))
      else
        let adu = slaveID # requestPDU;
            crc = calculateCRC adu;
            c1 = c\<lparr>lastSentPacket :=
                       Some (adu @ [ucast (crc AND 0xFF), ucast (drop_bit 8 crc)])\<rparr>
        in (case responsePDU of
              Some resp \<Rightarrow>
                (case requestPDU of
                   [] \<Rightarrow> None
                 | requestFuncCode # _ \<Rightarrow>
                     let full = fullResponsePDU requestFuncCode resp;
                         responseADU = slaveID # full;
                         responseCRC = calculateCRC responseADU
                     in Some (c1\<lparr>lastReceivedPacket :=
                                  Some (responseADU @ [ucast (responseCRC AND 0xFF),
                                                       ucast (drop_bit 8 responseCRC)])\<rparr>))
            | None \<Rightarrow> Some (c1\<lparr>lastReceivedPacket := None\<rparr>)))"

text \<open>
  What a call of the transport library returns: an error, or the data bytes of the
  response (on success the library returns a non-nil slice).
\<close>

datatype reply = Failure transportError | Success "byte list"

text \<open>
  The body shared by \<open>ReadHoldingRegisters\<close> (function code 3) and
  \<open>ReadInputRegisters\<close> (function code 4). The handler's \<open>SlaveId\<close> is set for the call
  and restored by the deferred function, so the client leaves with the value it came with.
  Calling a method of the nil \<^verbatim>\<open>c.client\<close> panics.
\<close>

definition readRegisters ::
  "byte \<Rightarrow> Client \<Rightarrow> (uint32 \<Rightarrow> string) \<Rightarrow> byte \<Rightarrow> uint16 \<Rightarrow> uint16 \<Rightarrow> DataType \<Rightarrow> reply
     \<Rightarrow> (error + gvalue) \<times> Client" where
  "readRegisters fc c formatTime slaveID address count dataType rep =
     (if \<not> isConnected c then (Inl NotConnected, c)
      else
        let requestPDU = fc # PutUint16 address @ PutUint16 count
        in if \<not> client c then (Inl NilDereference, c)
           else (case rep of
                   Failure err \<Rightarrow>
                     (case recordADU c requestPDU None slaveID of
                        None \<Rightarrow> (Inl IndexOutOfRange, c)
                      | Some c' \<Rightarrow> (Inl (ReadFailed err), c'))
                 | Success results \<Rightarrow>
                     (case recordADU c requestPDU (Some results) slaveID of
                        None \<Rightarrow> (Inl IndexOutOfRange, c)
                      | Some c' \<Rightarrow>
                          (ConvertFromRegisters (converter c') formatTime
                             (bytesToUint16Array results) dataType, c'))))"

definition ReadHoldingRegisters ::
  "Client \<Rightarrow> (uint32 \<Rightarrow> string) \<Rightarrow> byte \<Rightarrow> uint16 \<Rightarrow> uint16 \<Rightarrow> DataType \<Rightarrow> reply
     \<Rightarrow> (error + gvalue) \<times> Client" where
  "ReadHoldingRegisters = readRegisters 0x03"

definition ReadInputRegisters ::
  "Client \<Rightarrow> (uint32 \<Rightarrow> string) \<Rightarrow> byte \<Rightarrow> uint16 \<Rightarrow> uint16 \<Rightarrow> DataType \<Rightarrow> reply
     \<Rightarrow> (error + gvalue) \<times> Client" where
  "ReadInputRegisters = readRegisters 0x04"

text \<open>
  The loop of \<open>ReadCoils\<close> and \<open>ReadDiscreteInputs\<close>:
  \<^verbatim>\<open>for i := 0; i < int(count); i++\<close>, a bit appended only when its byte exists.
\<close>

function bitLoop :: "byte list \<Rightarrow> nat \<Rightarrow> nat \<Rightarrow> bool list \<Rightarrow> bool list" where
  "bitLoop results count i bools =
     (if i < count then
        bitLoop results count (i + 1)
          (let byteIndex = i div 8; bitIndex = i mod 8
           in if byteIndex < length results
              then bools @ [results ! byteIndex AND push_bit bitIndex 1 \<noteq> 0]
              else bools)
      else bools)"
  by pat_completeness auto
termination
  by (relation "measure (\<lambda>(results, count, i, bools). count - i)") auto

definition readBits ::
  "byte \<Rightarrow> Client \<Rightarrow> byte \<Rightarrow> uint16 \<Rightarrow> uint16 \<Rightarrow> reply \<Rightarrow> (error + bool list) \<times> Client" where
  "readBits fc c slaveID address count rep =
     (if \<not> isConnected c then (Inl NotConnected, c)
      else
        let requestPDU = fc # PutUint16 address @ PutUint16 count
        in if \<not> client c then (Inl NilDereference, c)
           else (case rep of
                   Failure err \<Rightarrow>
                     (case recordADU c requestPDU None slaveID of
                        None \<Rightarrow> (Inl IndexOutOfRange, c)
                      | Some c' \<Rightarrow> (Inl (ReadFailed err), c'))
                 | Success results \<Rightarrow>
                     (case recordADU c requestPDU (Some results) slaveID of
                        None \<Rightarrow> (Inl IndexOutOfRange, c)
                      | Some c' \<Rightarrow> (Inr (bitLoop results (unat count) 0 []), c'))))"

definition ReadCoils ::
  "Client \<Rightarrow> byte \<Rightarrow> uint16 \<Rightarrow> uint16 \<Rightarrow> reply \<Rightarrow> (error + bool list) \<times> Client" where
  "ReadCoils = readBits 0x01"

definition ReadDiscreteInputs ::
  "Client \<Rightarrow> byte \<Rightarrow> uint16 \<Rightarrow> uint16 \<Rightarrow> reply \<Rightarrow> (error + bool list) \<times> Client" where
  "ReadDiscreteInputs = readBits 0x02"

text \<open>
  The tail of the four write paths: the library call on \<^verbatim>\<open>c.client\<close> and the
  recording of its outcome.
\<close>

definition writeExchange ::
  "Client \<Rightarrow> byte list \<Rightarrow> byte \<Rightarrow> reply \<Rightarrow> error option \<times> Client" where
  "writeExchange c requestPDU slaveID rep =
     (if \<not> client c then (Some NilDereference, c)
      else (case rep of
              Failure err \<Rightarrow>
                (case recordADU c requestPDU None slaveID of
                   None \<Rightarrow> (Some IndexOutOfRange, c)
                 | Some c' \<Rightarrow> (Some (WriteFailed err), c'))
            | Success results \<Rightarrow>
                (case recordADU c requestPDU (Some results) slaveID of
                   None \<Rightarrow> (Some IndexOutOfRange, c)
                 | Some c' \<Rightarrow> (None, c'))))"

text \<open>
  \<open>WriteHoldingRegisters\<close>. \<^verbatim>\<open>copy(requestPDU[3:5], data)\<close> copies at most two bytes
  into a zeroed buffer.
\<close>

definition WriteHoldingRegisters ::
  "Client \<Rightarrow> byte \<Rightarrow> uint16 \<Rightarrow> gvalue \<Rightarrow> reply \<Rightarrow> error option \<times> Client" where
  "WriteHoldingRegisters c slaveID address values rep =
     (if \<not> isConnected c then (Some NotConnected, c)
      else (case ConvertToRegisters (converter c) values of
              Inl err \<Rightarrow> (Some (ConversionFailed err), c)
            | Inr registers \<Rightarrow>
                let quantity = (of_nat (length registers) :: uint16);
                    data = uint16ArrayToBytes registers
                in if quantity = 1
                   then writeExchange c
                          (0x06 # PutUint16 address @ take 2 (data @ [0, 0])) slaveID rep
                   else writeExchange c
                          (0x10 # PutUint16 address @ PutUint16 quantity
                           @ [of_nat (length data)] @ data) slaveID rep))"

text \<open>
  The packing loop of \<open>WriteCoils\<close>:
  \<^verbatim>\<open>data[byteIndex] |= 1 << bitIndex\<close> for every true value, \<open>i\<close> its index.
\<close>

fun packCoils :: "bool list \<Rightarrow> nat \<Rightarrow> byte list \<Rightarrow> byte list" where
  "packCoils [] i data = data"
| "packCoils (val # vals) i data =
     packCoils vals (i + 1)
       (if val then data[i div 8 := data ! (i div 8) OR push_bit (i mod 8) 1] else data)"

definition WriteCoils ::
  "Client \<Rightarrow> byte \<Rightarrow> uint16 \<Rightarrow> bool list \<Rightarrow> reply \<Rightarrow> error option \<times> Client" where
  "WriteCoils c slaveID address values rep =
     (if \<not> isConnected c then (Some NotConnected, c)
      else
        let quantity = (of_nat (length values) :: uint16)
        in if quantity = 1
           then (case values of
                   [] \<Rightarrow> (Some IndexOutOfRange, c)
                 | v0 # _ \<Rightarrow>
                     let v = (if v0 then 0xFF00 else 0x0000)
                     in writeExchange c (0x05 # PutUint16 address @ PutUint16 v) slaveID rep)
           else
             let byteCount = (length values + 7) div 8;
                 data = packCoils values 0 (replicate byteCount 0)
             in writeExchange c
                  (0x0F # PutUint16 address @ PutUint16 quantity
                   @ [of_nat (length data)] @ data) slaveID rep)"

section \<open>pkg/datatypes: parsing text\<close>

text \<open>
  \<^verbatim>\<open>strings.Split(s, ",")\<close> for a separator of one byte: the pieces between the
  separators, in order. \<open>cur\<close> collects the piece being read, in reverse.
\<close>

fun splitFrom :: "char \<Rightarrow> string \<Rightarrow> string \<Rightarrow> string list" where
  "splitFrom sep cur [] = [rev cur]"
| "splitFrom sep cur (x # xs) =
     (if x = sep then rev cur # splitFrom sep [] xs else splitFrom sep (x # cur) xs)"

definition Split :: "string \<Rightarrow> char \<Rightarrow> string list" where
  "Split s sep = splitFrom sep [] s"

text \<open>
  \<^verbatim>\<open>strings.TrimSpace\<close> removes the white space of Unicode from both ends. On the bytes
  of a string these are the six ASCII characters and the UTF-8 encodings of U+0085,
  U+00A0, U+1680, U+2000 to U+200A, U+2028, U+2029, U+202F, U+205F and U+3000.
  \<open>spaceWidth\<close> is the number of bytes of the white-space character a string starts with,
  0 when it starts with none.
\<close>

definition asciiSpace :: "char \<Rightarrow> bool" where
  "asciiSpace c = (c \<in> {CHR 0x09, CHR 0x0A, CHR 0x0B, CHR 0x0C, CHR 0x0D, CHR 0x20})"

definition spaces2 :: "string list" where
  "spaces2 = [[CHR 0xC2, CHR 0x85], [CHR 0xC2, CHR 0xA0]]"

definition spaces3 :: "string list" where
  "spaces3 =
     [[CHR 0xE1, CHR 0x9A, CHR 0x80],
      [CHR 0xE2, CHR 0x80, CHR 0x80], [CHR 0xE2, CHR 0x80, CHR 0x81],
      [CHR 0xE2, CHR 0x80, CHR 0x82], [CHR 0xE2, CHR 0x80, CHR 0x83],
      [CHR 0xE2, CHR 0x80, CHR 0x84], [CHR 0xE2, CHR 0x80, CHR 0x85],
      [CHR 0xE2, CHR 0x80, CHR 0x86], [CHR 0xE2, CHR 0x80, CHR 0x87],
      [CHR 0xE2, CHR 0x80, CHR 0x88], [CHR 0xE2, CHR 0x80, CHR 0x89],
      [CHR 0xE2, CHR 0x80, CHR 0x8A], [CHR 0xE2, CHR 0x80, CHR 0xA8],
      [CHR 0xE2, CHR 0x80, CHR 0xA9], [CHR 0xE2, CHR 0x80, CHR 0xAF],
      [CHR 0xE2, CHR 0x81, CHR 0x9F], [CHR 0xE3, CHR 0x80, CHR 0x80]]"

definition spaceWidth :: "string \<Rightarrow> nat" where
  "spaceWidth s =
     (case s of
        [] \<Rightarrow> 0
      | c # _ \<Rightarrow>
          if asciiSpace c then 1
          else if take 2 s \<in> set spaces2 then 2
          else if take 3 s \<in> set spaces3 then 3
          else 0)"

function trimLeftSpace :: "string \<Rightarrow> string" where
  "trimLeftSpace s =
     (if spaceWidth s = 0 then s else trimLeftSpace (drop (spaceWidth s) s))"
  by pat_completeness auto
termination
proof (relation "measure length")
  show "wf (measure length)" by simp
next
  fix s :: string
  assume w: "spaceWidth s \<noteq> 0"
  then have "s \<noteq> []" by (cases s) (simp_all add: spaceWidth_def)
  with w show "(drop (spaceWidth s) s, s) \<in> measure length" by simp
qed

text \<open>
  From the end the library decodes the last character; it is a white-space character
  exactly when the string ends with one of the encodings above.
\<close>

definition spaceWidthEnd :: "string \<Rightarrow> nat" where
  "spaceWidthEnd s =
     (case rev s of
        [] \<Rightarrow> 0
      | c # _ \<Rightarrow>
          if asciiSpace c then 1
          else if drop (length s - 2) s \<in> set spaces2 then 2
          else if drop (length s - 3) s \<in> set spaces3 then 3
          else 0)"

function trimRightSpace :: "string \<Rightarrow> string" where
  "trimRightSpace s =
     (if spaceWidthEnd s = 0 then s
      else trimRightSpace (take (length s - spaceWidthEnd s) s))"
  by pat_completeness auto
termination
proof (relation "measure length")
  show "wf (measure length)" by simp
next
  fix s :: string
  assume w: "spaceWidthEnd s \<noteq> 0"
  then have "s \<noteq> []" by (cases s) (simp_all add: spaceWidthEnd_def)
  with w show "(take (length s - spaceWidthEnd s) s, s) \<in> measure length" by simp
qed

definition TrimSpace :: "string \<Rightarrow> string" where
  "TrimSpace s = trimRightSpace (trimLeftSpace s)"

text \<open>
  \<^verbatim>\<open>strconv.ParseUint(s, 10, bitSize)\<close>: a non-empty string of decimal digits whose
  value fits \<open>bitSize\<close> bits; \<open>None\<close> stands for a non-nil error. The unsigned
  result is a non-negative \<open>int\<close>.
\<close>

definition isDigit :: "char \<Rightarrow> bool" where
  "isDigit c = (48 \<le> (of_char c :: nat) \<and> (of_char c :: nat) \<le> 57)"

fun digitsValue :: "string \<Rightarrow> int \<Rightarrow> int option" where
  "digitsValue [] n = Some n"
| "digitsValue (c # cs) n =
     (if isDigit c then digitsValue cs (n * 10 + (of_char c - 48)) else None)"

definition ParseUint :: "string \<Rightarrow> nat \<Rightarrow> int option" where
  "ParseUint s bitSize =
     (if s = [] then None
      else (case digitsValue s 0 of
              None \<Rightarrow> None
            | Some n \<Rightarrow> if n < 2 ^ bitSize then Some n else None))"

text \<open>
  \<^verbatim>\<open>strconv.ParseInt(s, 10, bitSize)\<close>: an optional sign, then \<open>ParseUint\<close>, then the
  range of a signed integer of \<open>bitSize\<close> bits.
\<close>

definition ParseInt :: "string \<Rightarrow> nat \<Rightarrow> int option" where
  "ParseInt s bitSize =
     (case s of
        [] \<Rightarrow> None
      | c # cs \<Rightarrow>
          let neg = (c = CHR ''-'');
              s' = (if c = CHR ''+'' \<or> c = CHR ''-'' then cs else s)
          in (case ParseUint s' bitSize of
                None \<Rightarrow> None
              | Some un \<Rightarrow>
                  if \<not> neg \<and> un \<ge> 2 ^ (bitSize - 1) then None
                  else if neg \<and> un > 2 ^ (bitSize - 1) then None
                  else Some (if neg then - un else un)))"

definition ParseBool :: "string \<Rightarrow> bool option" where
  "ParseBool s =
     (if s \<in> {''1'', ''t'', ''T'', ''TRUE'', ''true'', ''True''} then Some True
      else if s \<in> {''0'', ''f'', ''F'', ''FALSE'', ''false'', ''False''} then Some False
      else None)"

text \<open>
  The loop of every numeric and boolean case of \<open>ParseStringToType\<close>: each part is
  trimmed and parsed; the first part that does not parse ends the loop with an error that
  names the part as it was split off, untrimmed.
\<close>

fun parseParts :: "(string \<Rightarrow> 'a option) \<Rightarrow> DataType \<Rightarrow> string list \<Rightarrow> error + 'a list" where
  "parseParts parse dataType [] = Inr []"
| "parseParts parse dataType (p # ps) =
     (case parse (TrimSpace p) of
        None \<Rightarrow> Inl (InvalidValue dataType p)
      | Some val \<Rightarrow>
          (case parseParts parse dataType ps of
             Inl err \<Rightarrow> Inl err
           | Inr vals \<Rightarrow> Inr (val # vals)))"

definition sliceOf :: "('a list \<Rightarrow> gvalue) \<Rightarrow> error + 'a list \<Rightarrow> error + gvalue" where
  "sliceOf mk r = (case r of Inl err \<Rightarrow> Inl err | Inr vals \<Rightarrow> Inr (mk vals))"

text \<open>
  \<open>ParseStringToType\<close>. \<^verbatim>\<open>strconv.ParseFloat\<close> is the parameter \<open>ParseFloat\<close>, from
  the text and the bit size to the bits of a \<^verbatim>\<open>float64\<close>, and the conversion
  \<^verbatim>\<open>float32(val)\<close> is the parameter \<open>toFloat32\<close>.
\<close>

definition ParseStringToType ::
  "(string \<Rightarrow> nat \<Rightarrow> uint64 option) \<Rightarrow> (uint64 \<Rightarrow> uint32) \<Rightarrow> string \<Rightarrow> DataType
     \<Rightarrow> error + gvalue" where
  "ParseStringToType ParseFloat toFloat32 valueStr dataType =
     (let parts = Split valueStr (CHR '','')
      in if length parts = 0 then Inl ValueStringEmpty
         else case dataType of
           INT16 \<Rightarrow> sliceOf (\<lambda>vs. Int16Slice (map of_int vs))
                      (parseParts (\<lambda>t. ParseInt t 16) INT16 parts)
         | UINT16 \<Rightarrow> sliceOf (\<lambda>vs. Uint16Slice (map of_int vs))
                       (parseParts (\<lambda>t. ParseUint t 16) UINT16 parts)
         | INT32 \<Rightarrow> sliceOf (\<lambda>vs. Int32Slice (map of_int vs))
                      (parseParts (\<lambda>t. ParseInt t 32) INT32 parts)
         | UINT32 \<Rightarrow> sliceOf (\<lambda>vs. Uint32Slice (map of_int vs))
                       (parseParts (\<lambda>t. ParseUint t 32) UINT32 parts)
         | INT64 \<Rightarrow> sliceOf (\<lambda>vs. Int64Slice (map of_int vs))
                      (parseParts (\<lambda>t. ParseInt t 64) INT64 parts)
         | UINT64 \<Rightarrow> sliceOf (\<lambda>vs. Uint64Slice (map of_int vs))
                       (parseParts (\<lambda>t. ParseUint t 64) UINT64 parts)
         | FLOAT32 \<Rightarrow> sliceOf (\<lambda>vs. Float32Slice (map toFloat32 vs))
                        (parseParts (\<lambda>t. ParseFloat t 32) FLOAT32 parts)
         | FLOAT64 \<Rightarrow> sliceOf Float64Slice
                        (parseParts (\<lambda>t. ParseFloat t 64) FLOAT64 parts)
         | ASCII \<Rightarrow> Inr (String valueStr)
         | BOOL \<Rightarrow> sliceOf BoolSlice (parseParts ParseBool BOOL parts)
         | BYTE \<Rightarrow> Inl (UnsupportedParse BYTE)
         | UNIX_TIMESTAMP \<Rightarrow> Inl (UnsupportedParse UNIX_TIMESTAMP))"

section \<open>internal/gui/app_refined.go: the polling job\<close>

text \<open>
  The part of \<open>AppRefined\<close> that polling touches. A channel is known by a number,
  \<open>pollingStop\<close> is \<open>None\<close> for nil, and \<open>nextChan\<close> numbers the next
  \<^verbatim>\<open>make(chan bool)\<close>. \<open>signalled\<close> lists the channels on which a value waits to be
  received, \<open>pollers\<close> the slave ID of every polling goroutine that has not returned, and
  \<open>reads\<close> the calls of \<open>readRegister\<close> made by pollers, oldest first. \<open>panicked\<close>
  holds once a goroutine has panicked, which ends the program.
\<close>

record AppRefined =
  appConnected :: bool
  pollingStop :: "nat option"
  nextChan :: nat
  signalled :: "nat list"
  startPollingEnabled :: bool
  stopPollingEnabled :: bool
  pollers :: "byte list"
  reads :: "byte list"
  panicked :: bool

text \<open>\<open>NewAppRefined\<close> makes the first stop channel; both buttons start disabled.\<close>

definition NewAppRefined :: AppRefined where
  "NewAppRefined =
     \<lparr>appConnected = False, pollingStop = Some 0, nextChan = 1, signalled = [],
      startPollingEnabled = False, stopPollingEnabled = False, pollers = [], reads = [],
      panicked = False\<rparr>"

definition stopPolling :: "AppRefined \<Rightarrow> AppRefined" where
  "stopPolling a =
     (if pollingStop a = None
      then a\<lparr>startPollingEnabled := True, stopPollingEnabled := False\<rparr>
      else a)"

text \<open>
  \<open>startPolling\<close>: \<^verbatim>\<open>strconv.Atoi\<close> is \<open>ParseInt\<close> at the width of \<^verbatim>\<open>int\<close>. The
  \<^verbatim>\<open>go func()\<close> statement starts a goroutine, which first makes its ticker from
  \<^verbatim>\<open>time.Duration(intervalMs) * time.Millisecond\<close>, a product in 64 bits that wraps
  around; \<^verbatim>\<open>time.NewTicker\<close> panics when the duration is not positive, and else the
  goroutine is a poller.
\<close>

definition startPolling :: "AppRefined \<Rightarrow> byte \<Rightarrow> string \<Rightarrow> AppRefined" where
  "startPolling a slaveIDByte intervalStr =
     (if \<not> appConnected a then a
      else (case ParseInt intervalStr 64 of
              None \<Rightarrow> a
            | Some intervalMs \<Rightarrow>
                if intervalMs \<le> 0 then a
                else
                  let a1 = (if pollingStop a \<noteq> None then stopPolling a else a);
                      a2 = a1\<lparr>pollingStop := Some (nextChan a1), nextChan := nextChan a1 + 1,
                              startPollingEnabled := False, stopPollingEnabled := True\<rparr>;
                      duration = sint ((of_int intervalMs :: uint64) * 1000000)
                  in if duration \<le> 0 then a2\<lparr>panicked := True\<rparr>
                     else a2\<lparr>pollers := pollers a2 @ [slaveIDByte]\<rparr>))"

text \<open>
  One firing of the tickers. Every poller runs its \<^verbatim>\<open>select\<close> once: when a value
  waits on the channel that \<open>a.pollingStop\<close> holds, the poller receives it and returns,
  otherwise it calls \<open>readRegister\<close> with its slave ID. Nothing runs after a panic.
\<close>

fun runPollers :: "AppRefined \<Rightarrow> byte list \<Rightarrow> AppRefined" where
  "runPollers a [] = a"
| "runPollers a (p # ps) =
     (case pollingStop a of
        Some ch \<Rightarrow>
          if ch \<in> set (signalled a)
          then runPollers (a\<lparr>signalled := remove1 ch (signalled a)\<rparr>) ps
          else runPollers (a\<lparr>pollers := pollers a @ [p], reads := reads a @ [p]\<rparr>) ps
      | None \<Rightarrow> runPollers (a\<lparr>pollers := pollers a @ [p], reads := reads a @ [p]\<rparr>) ps)"

definition tick :: "AppRefined \<Rightarrow> AppRefined" where
  "tick a = (if panicked a then a else runPollers (a\<lparr>pollers := []\<rparr>) (pollers a))"

section \<open>Reading the recorded frames\<close>

text \<open>
  The transaction ID of an MBAP header: its first two bytes, high byte first
  (0 for a packet shorter than that).
\<close>

definition mbapTransactionID :: "byte list \<Rightarrow> uint16" where
  "mbapTransactionID packet =
     (case packet of b0 # b1 # _ \<Rightarrow> push_bit 8 (ucast b0) OR ucast b1 | _ \<Rightarrow> 0)"

section \<open>Decoding and encoding again\<close>

text \<open>
  \<open>ConvertFromRegisters\<close> followed by \<open>ConvertToRegisters\<close> under one converter; an
  error of the first is the result.
\<close>

definition roundTrip ::
  "Converter \<Rightarrow> (uint32 \<Rightarrow> string) \<Rightarrow> uint16 list \<Rightarrow> DataType \<Rightarrow> error + uint16 list" where
  "roundTrip c formatTime registers dataType =
     (case ConvertFromRegisters c formatTime registers dataType of
        Inl err \<Rightarrow> Inl err
      | Inr v \<Rightarrow> ConvertToRegisters c v)"

text \<open>
  An ADU around a PDU as the data model lays it out. Over TCP: the transaction ID, the
  protocol ID 0, the length of what follows and the unit ID, then the PDU. Over RTU: the
  unit ID, the PDU and the two bytes of the CRC-16 (initial value FFFF, polynomial A001)
  of the unit ID and the PDU. Which of the two CRC bytes comes first is left open here.
\<close>

definition wrapsPDU :: "ConnectionType \<Rightarrow> uint16 \<Rightarrow> byte \<Rightarrow> byte list \<Rightarrow> byte list \<Rightarrow> bool" where
  "wrapsPDU ct tid unit pdu adu =
     (if ct = TCP
      then adu = PutUint16 tid @ [0x00, 0x00] @ PutUint16 (of_nat (length pdu + 1)) @ [unit] @ pdu
      else
        let crc = crcLoop (unit # pdu) 0xFFFF;
            lo = (ucast crc :: byte);
            hi = (ucast (drop_bit 8 crc) :: byte)
        in adu = unit # pdu @ [lo, hi] \<or> adu = unit # pdu @ [hi, lo])"

text \<open>
  The pair of packets after a call on the client \<open>c\<close>: the sent packet wraps the request
  PDU under the next transaction ID of \<open>c\<close>, and the received packet wraps one of the
  response PDUs listed, or is nil when there is no response.
\<close>

definition recorded ::
  "Client \<Rightarrow> byte \<Rightarrow> byte list \<Rightarrow> byte list list option
     \<Rightarrow> byte list option \<times> byte list option \<Rightarrow> bool" where
  "recorded c unit requestPDU responsePDUs packets =
     (case packets of
        (sent, received) \<Rightarrow>
          (case sent of
             None \<Rightarrow> False
           | Some adu \<Rightarrow> wrapsPDU (connectionType c) (transactionID c + 1) unit requestPDU adu)
          \<and> (case responsePDUs of
                None \<Rightarrow> received = None
              | Some pdus \<Rightarrow>
                  (case received of
                     None \<Rightarrow> False
                   | Some adu \<Rightarrow>
                       list_ex (\<lambda>pdu. wrapsPDU (connectionType c) (transactionID c + 1)
                                       unit pdu adu) pdus)))"

text \<open>
  The response PDUs that belong to a reply of the library: none for a failure. For a read
  the library returns the data, and the response PDU is the function code, the byte count
  and the data. For a write to the address \<open>a\<close> the library returns the two bytes of the
  value or quantity, and the response PDU is the function code followed by these bytes,
  with or without the address in between: which of the two is left open here.
\<close>

definition responseOf :: "byte \<Rightarrow> uint16 \<Rightarrow> reply \<Rightarrow> byte list list option" where
  "responseOf fc a rep =
     (case rep of
        Failure err \<Rightarrow> None
      | Success results \<Rightarrow>
          Some (if fc \<in> {0x01, 0x02, 0x03, 0x04}
                then [fc # of_nat (length results) # results]
                else [fc # results, fc # PutUint16 a @ results]))"

text \<open>
  The request PDU of a register write. One register (the number of registers, as 16
  bits, is 1) is written with function code 06: the address and the value. Otherwise the
  code is 10 (hexadecimal): the address, the quantity, the number of data bytes in one
  byte, and every register high byte first.
\<close>

definition writeRegistersCode :: "uint16 list \<Rightarrow> byte" where
  "writeRegistersCode regs = (if (of_nat (length regs) :: uint16) = 1 then 0x06 else 0x10)"

definition writeRegistersRequest :: "uint16 \<Rightarrow> uint16 list \<Rightarrow> byte list" where
  "writeRegistersRequest a regs =
     (if (of_nat (length regs) :: uint16) = 1
      then (case regs of [] \<Rightarrow> [] | r # _ \<Rightarrow> 0x06 # PutUint16 a @ PutUint16 r)
      else 0x10 # PutUint16 a @ PutUint16 (of_nat (length regs))
           @ [of_nat (2 * length regs)] @ concat (map PutUint16 regs))"

text \<open>
  The request PDU of a coil write. Byte \<open>k\<close> of the data holds the values \<open>8 * k\<close> to
  \<open>8 * k + 7\<close>, value \<open>8 * k + j\<close> in bit \<open>j\<close>, and zeros beyond the last value. One
  coil is written with function code 05: the address and FF00 for true, 0000 for false.
  Otherwise the code is 0F: the address, the quantity, the number of data bytes and the
  data.
\<close>

definition coilByte :: "bool list \<Rightarrow> nat \<Rightarrow> byte" where
  "coilByte vals k =
     horner_sum of_bool 2
       (map (\<lambda>j. 8 * k + j < length vals \<and> vals ! (8 * k + j)) [0..<8])"

definition writeCoilsCode :: "bool list \<Rightarrow> byte" where
  "writeCoilsCode vals = (if (of_nat (length vals) :: uint16) = 1 then 0x05 else 0x0F)"

definition writeCoilsRequest :: "uint16 \<Rightarrow> bool list \<Rightarrow> byte list" where
  "writeCoilsRequest a vals =
     (if (of_nat (length vals) :: uint16) = 1
      then (case vals of
              [] \<Rightarrow> []
            | v # _ \<Rightarrow> 0x05 # PutUint16 a @ (if v then [0xFF, 0x00] else [0x00, 0x00]))
      else 0x0F # PutUint16 a @ PutUint16 (of_nat (length vals))
           @ [of_nat ((length vals + 7) div 8)]
           @ map (coilByte vals) [0..<(length vals + 7) div 8])"

section \<open>The polling job does not stop\<close>

text \<open>
  C1. The claim: after \<open>stopPolling\<close> returns the polling loop has seen the cancellation
  and has exited, so that no later tick calls the read operation, and stopping twice after
  a start leaves the job stopped. The code: \<open>stopPolling\<close> never sends on the stop channel
  nor closes it. After a start on a connected application and two calls of \<open>stopPolling\<close>
  the poller is still there, and each of the next two ticks calls \<open>readRegister\<close>.
\<close>

theorem stopPolling_leaves_poller_running:
  "(let a = stopPolling (stopPolling
              (startPolling (NewAppRefined\<lparr>appConnected := True\<rparr>) 0x01 ''1000''))
    in pollers a = [0x01] \<and> signalled a = [] \<and> reads a = []
       \<and> reads (tick a) = [0x01] \<and> reads (tick (tick a)) = [0x01, 0x01]
       \<and> pollers (tick (tick a)) = [0x01] \<and> \<not> panicked (tick (tick a)))"
  by code_simp

section \<open>Disconnecting leaves the connected flag set\<close>

text \<open>
  C2. The claim: \<open>Disconnect\<close> brings the client to the disconnected state, and a read
  after it fails with the not-connected error. The code: \<open>Disconnect\<close> clears \<open>handler\<close>
  and \<open>client\<close> and leaves \<open>isConnected\<close> as it was. After a successful \<open>ConnectTCP\<close>
  and a \<open>Disconnect\<close> the client still reports connected, and \<open>ReadHoldingRegisters\<close>
  passes its guard and calls the nil library client, which panics.
\<close>

theorem read_after_Disconnect_not_NotConnected:
  "(let c = snd (Disconnect (snd (ConnectTCP NewClient None)) None)
    in IsConnected c \<and> \<not> IsClientReady c
       \<and> fst (ReadHoldingRegisters c (\<lambda>t. []) 0x01 0 1 UINT16 (Success [0, 0]))
           = Inl NilDereference
       \<and> fst (ReadHoldingRegisters c (\<lambda>t. []) 0x01 0 1 UINT16 (Success [0, 0]))
           \<noteq> Inl NotConnected)"
  by code_simp

section \<open>The recorded RTU frame ends with the CRC bytes exchanged\<close>

text \<open>
  C3. The claim: the CRC is appended low byte first, and for the bytes 01 03 00 00 00 01
  the appended bytes are those of the reference CRC-16 of Modbus RTU. The code: the loop
  of \<open>calculateCRC\<close> leaves the register value 0A84 (hexadecimal), whose low byte is 84;
  \<open>calculateCRC\<close> returns it with the bytes exchanged and \<open>recordADU\<close> exchanges them
  once more, so the recorded frame ends with 0A 84, high byte first.
\<close>

theorem recordADU_rtu_crc_high_byte_first:
  "crcLoop [0x01, 0x03, 0x00, 0x00, 0x00, 0x01] 0xFFFF = 0x0A84
   \<and> calculateCRC [0x01, 0x03, 0x00, 0x00, 0x00, 0x01] = 0x840A
   \<and> map_option lastSentPacket
         (recordADU (snd (ConnectRTU NewClient None)) [0x03, 0x00, 0x00, 0x00, 0x01] None 0x01)
       = Some (Some [0x01, 0x03, 0x00, 0x00, 0x00, 0x01, 0x0A, 0x84])"
  by code_simp

section \<open>Reading coils and discrete inputs\<close>

declare bitLoop.simps [simp del]

lemma filter_div8_upt:
  "filter (\<lambda>i. i div 8 < n) [0..<m] = [0..<min m (8 * n)]"
proof (induction m)
  case 0
  show ?case by simp
next
  case (Suc m)
  show ?case
  proof (cases "m < 8 * n")
    case True
    then have "m div 8 < n" by (simp add: div_less_iff_less_mult mult.commute)
    with True Suc show ?thesis by (simp add: min_def)
  next
    case False
    then have "\<not> m div 8 < n" by (simp add: div_less_iff_less_mult mult.commute)
    with False Suc show ?thesis by (simp add: min_def)
  qed
qed

text \<open>The loop appends, for the indices from \<open>i\<close> on whose byte exists, the bit tested.\<close>

lemma bitLoop_eq:
  "bitLoop results count i bools =
     bools @ map (\<lambda>i. results ! (i div 8) AND push_bit (i mod 8) 1 \<noteq> 0)
               (filter (\<lambda>i. i div 8 < length results) [i..<count])"
proof (induction results count i bools rule: bitLoop.induct)
  case (1 results count i bools)
  show ?case
  proof (cases "i < count")
    case True
    then have u: "[i..<count] = i # [Suc i..<count]" by (simp add: upt_conv_Cons)
    from True 1 show ?thesis
      by (subst bitLoop.simps) (simp add: u Let_def)
  next
    case False
    then show ?thesis by (subst bitLoop.simps) simp
  qed
qed

lemma bitLoop_from_zero:
  "bitLoop results count 0 [] =
     map (\<lambda>i. bit (results ! (i div 8)) (i mod 8)) [0..<min count (8 * length results)]"
  by (simp add: bitLoop_eq filter_div8_upt bit_iff_and_push_bit_not_eq_0)

lemma readBits_Inr:
  assumes "fst (readBits fc c slaveID address count rep) = Inr bools"
  shows "\<exists>results. rep = Success results \<and> bools = bitLoop results (unat count) 0 []"
  using assms
  by (auto simp: readBits_def Let_def recordADU_def
           split: if_splits reply.splits option.splits list.splits)

lemma readBits_Success:
  assumes "isConnected c" and "client c"
  shows "fst (readBits fc c slaveID address count (Success results))
         = Inr (bitLoop results (unat count) 0 [])"
  using assms by (simp add: readBits_def recordADU_def Let_def)

text \<open>
  C9. On a connected client every successful reply of the library, whatever its length,
  makes \<open>ReadCoils\<close> and \<open>ReadDiscreteInputs\<close> return a list and no error: for the data
  bytes \<open>results\<close> and the count \<open>n\<close> the list has \<open>min n (8 * length results)\<close> elements,
  and element \<open>8 * k + j\<close> is bit \<open>j\<close> of byte \<open>k\<close>. So a response with fewer than
  \<open>n / 8\<close> bytes, rounded up, gives a shorter list. Conversely, whenever one of the two
  calls returns a list, the library returned data bytes and the list is the one described.
\<close>

theorem ReadCoils_length_and_bits:
  "(isConnected c \<and> client c \<longrightarrow>
      (\<exists>bs. fst (ReadCoils c slaveID address count (Success results)) = Inr bs
          \<and> fst (ReadDiscreteInputs c slaveID address count (Success results)) = Inr bs
          \<and> length bs = min (unat count) (8 * length results)
          \<and> (\<forall>k j. j < 8 \<and> 8 * k + j < length bs
                \<longrightarrow> bs ! (8 * k + j) = bit (results ! k) j)))
   \<and> (fst (ReadCoils c slaveID address count rep) = Inr bools
        \<or> fst (ReadDiscreteInputs c slaveID address count rep) = Inr bools
      \<longrightarrow> (\<exists>results. rep = Success results
             \<and> length bools = min (unat count) (8 * length results)
             \<and> (\<forall>k j. j < 8 \<and> 8 * k + j < length bools
                   \<longrightarrow> bools ! (8 * k + j) = bit (results ! k) j)))"
proof (intro conjI impI)
  assume h: "isConnected c \<and> client c"
  let ?bs = "bitLoop results (unat count) 0 []"
  from h have "fst (ReadCoils c slaveID address count (Success results)) = Inr ?bs"
    and "fst (ReadDiscreteInputs c slaveID address count (Success results)) = Inr ?bs"
    by (simp_all add: ReadCoils_def ReadDiscreteInputs_def readBits_Success)
  moreover have "length ?bs = min (unat count) (8 * length results)"
    by (simp add: bitLoop_from_zero)
  moreover have "?bs ! (8 * k + j) = bit (results ! k) j"
    if "j < 8" "8 * k + j < length ?bs" for k j
    using that by (simp add: bitLoop_from_zero)
  ultimately show "\<exists>bs. fst (ReadCoils c slaveID address count (Success results)) = Inr bs
          \<and> fst (ReadDiscreteInputs c slaveID address count (Success results)) = Inr bs
          \<and> length bs = min (unat count) (8 * length results)
          \<and> (\<forall>k j. j < 8 \<and> 8 * k + j < length bs
                \<longrightarrow> bs ! (8 * k + j) = bit (results ! k) j)"
    by blast
next
  assume a: "fst (ReadCoils c slaveID address count rep) = Inr bools
        \<or> fst (ReadDiscreteInputs c slaveID address count rep) = Inr bools"
  then obtain results where r: "rep = Success results"
    and b: "bools = bitLoop results (unat count) 0 []"
    unfolding ReadCoils_def ReadDiscreteInputs_def using readBits_Inr by blast
  have "length bools = min (unat count) (8 * length results)"
    by (simp add: b bitLoop_from_zero)
  moreover have "bools ! (8 * k + j) = bit (results ! k) j"
    if "j < 8" "8 * k + j < length bools" for k j
    using that by (simp add: b bitLoop_from_zero)
  ultimately show "\<exists>results. rep = Success results
             \<and> length bools = min (unat count) (8 * length results)
             \<and> (\<forall>k j. j < 8 \<and> 8 * k + j < length bools
                   \<longrightarrow> bools ! (8 * k + j) = bit (results ! k) j)"
    using r by blast
qed

text \<open>
  Over RTU ten coils are asked for and one byte, 05, comes back: both calls return eight
  values, the first and the third true. Over TCP twelve discrete inputs are asked for and
  the two bytes 81 0F come back: twelve values are returned.
\<close>

theorem ReadCoils_length_and_bits_witness:
  "fst (ReadCoils (snd (ConnectRTU NewClient None)) 0x01 0 10 (Success [0x05]))
     = Inr [True, False, True, False, False, False, False, False]
   \<and> fst (ReadDiscreteInputs (snd (ConnectRTU NewClient None)) 0x01 0 10 (Success [0x05]))
     = Inr [True, False, True, False, False, False, False, False]
   \<and> length [True, False, True, False, False, False, False, False]
       = min (unat (10 :: uint16)) (8 * length [0x05 :: byte])
   \<and> fst (ReadDiscreteInputs (snd (ConnectTCP NewClient None)) 0x02 7 12 (Success [0x81, 0x0F]))
     = Inr [True, False, False, False, False, False, False, True, True, True, True, True]
   \<and> (\<exists>results. Success [0x81, 0x0F] = Success results
         \<and> length [True, False, False, False, False, False, False, True, True, True, True, True]
             = min (unat (12 :: uint16)) (8 * length results)
         \<and> [True, False, False, False, False, False, False, True, True, True, True, True]
               ! (8 * 1 + 3) = bit (results ! 1) 3)"
proof -
  let ?rtu = "snd (ConnectRTU NewClient None)"
  let ?tcp = "snd (ConnectTCP NewClient None)"
  let ?l8 = "[True, False, True, False, False, False, False, False]"
  let ?l12 = "[True, False, False, False, False, False, False, True, True, True, True, True]"
  have pre: "isConnected ?rtu \<and> client ?rtu"
    by (simp add: ConnectRTU_def NewClient_def)
  have h: "fst (ReadCoils ?rtu 0x01 0 10 (Success [0x05])) = Inr ?l8"
    by code_simp
  from ReadCoils_length_and_bits
         [where c = "?rtu" and slaveID = "0x01" and address = "0" and count = "10"
            and results = "[0x05]"] pre
  obtain bs where b1: "fst (ReadCoils ?rtu 0x01 0 10 (Success [0x05])) = Inr bs"
    and b2: "fst (ReadDiscreteInputs ?rtu 0x01 0 10 (Success [0x05])) = Inr bs"
    and b3: "length bs = min (unat (10 :: uint16)) (8 * length [0x05 :: byte])"
    by blast
  from h b1 have bs: "bs = ?l8" by simp
  have d: "fst (ReadDiscreteInputs ?tcp 0x02 7 12 (Success [0x81, 0x0F])) = Inr ?l12"
    by code_simp
  from ReadCoils_length_and_bits
         [where c = "?tcp" and slaveID = "0x02" and address = "7" and count = "12"
            and rep = "Success [0x81, 0x0F]" and bools = "?l12"] d
  obtain results where r: "Success [0x81, 0x0F :: byte] = Success results"
    and l: "length ?l12 = min (unat (12 :: uint16)) (8 * length results)"
    and n: "\<forall>k j. j < 8 \<and> 8 * k + j < length ?l12
                \<longrightarrow> ?l12 ! (8 * k + j) = bit (results ! k) j"
    by blast
  from n have "?l12 ! (8 * 1 + 3) = bit (results ! 1) 3"
    by (rule allE [where x = 1], elim allE [where x = 3]) simp
  with h b2 b3 bs d r l show ?thesis by blast
qed

section \<open>Words of 32 bits from pairs of registers\<close>

declare loop32.simps [simp del]

text \<open>
  The loop, started at index \<open>i\<close>, appends one value for each complete pair from \<open>i\<close> on.
\<close>

lemma loop32_eq:
  "loop32 wo regs i result =
     result @ map (\<lambda>k. if wo = WORD_1234
                         then push_bit 16 (ucast (regs ! (i + 2 * k))) OR ucast (regs ! (i + 2 * k + 1))
                         else push_bit 16 (ucast (regs ! (i + 2 * k + 1))) OR ucast (regs ! (i + 2 * k)))
               [0..<(length regs - i) div 2]"
proof (induction wo regs i result rule: loop32.induct)
  case (1 wo regs i result)
  show ?case
  proof (cases "i < length regs")
    case False
    then show ?thesis by (subst loop32.simps) simp
  next
    case True
    note lt = this
    show ?thesis
    proof (cases "i + 1 < length regs")
      case True
      then have n: "(length regs - i) div 2 = Suc ((length regs - (i + 2)) div 2)"
        by (simp add: Suc_diff_Suc flip: div_add_self2 [of 2])
      from lt True 1 show ?thesis
        by (subst loop32.simps) (simp add: n map_upt_Suc del: upt_Suc)
    next
      case False
      with lt have n: "(length regs - i) div 2 = 0" "(length regs - (i + 2)) div 2 = 0"
        by simp_all
      from lt False 1 show ?thesis
        by (subst loop32.simps) (simp add: n)
    qed
  qed
qed

lemma ConvertFromRegisters_32:
  assumes "registers \<noteq> []" and "T \<in> {UINT32, INT32, FLOAT32}"
  shows "\<exists>vs. ConvertFromRegisters c formatTime registers T
                 = Inr ((if T = UINT32 then Uint32Slice else if T = INT32 then Int32Slice
                         else Float32Slice) vs)
           \<and> length vs = length registers div 2
           \<and> (\<forall>k < length registers div 2.
                 vs ! k = (if wordOrder c = WORD_1234
                           then push_bit 16 (ucast (registers ! (2 * k)))
                                OR ucast (registers ! (2 * k + 1))
                           else push_bit 16 (ucast (registers ! (2 * k + 1)))
                                OR ucast (registers ! (2 * k))))"
  using assms
  by (auto simp: ConvertFromRegisters_def convertToUint32Array_def convertToInt32Array_def
      convertToFloat32Array_def loop32_eq)

lemma ReadHoldingRegisters_65538:
  assumes "isConnected cl" and "client cl" and "wordOrder (converter cl) = WORD_1234"
  shows "fst (ReadHoldingRegisters cl formatTime 0x01 0 2 UINT32
                (Success [0x00, 0x01, 0x00, 0x02]))
         = Inr (Uint32Slice [65538])"
  using assms
  by (simp add: ReadHoldingRegisters_def readRegisters_def recordADU_def Let_def
      ConvertFromRegisters_def convertToUint32Array_def loop32_eq)

text \<open>
  C5. For \<open>UINT32\<close>, \<open>INT32\<close> and \<open>FLOAT32\<close> the conversion of a non-empty register
  array returns one value for each pair of registers, value \<open>k\<close> being
  \<open>reg[2k] << 16 | reg[2k+1]\<close> under word order 1234 and \<open>reg[2k+1] << 16 | reg[2k]\<close> under
  4321. A successful \<open>ReadHoldingRegisters\<close> of unit 1, address 0, count 2 as \<open>UINT32\<close>
  whose response carries the registers 0001 and 0002 returns 65538 under word order 1234.
\<close>

theorem ConvertFromRegisters_32bit_pairs:
  "(registers \<noteq> [] \<and> T \<in> {UINT32, INT32, FLOAT32} \<longrightarrow>
      (\<exists>vs. ConvertFromRegisters c formatTime registers T
                 = Inr ((if T = UINT32 then Uint32Slice else if T = INT32 then Int32Slice
                         else Float32Slice) vs)
           \<and> length vs = length registers div 2
           \<and> (\<forall>k < length registers div 2.
                 vs ! k = (if wordOrder c = WORD_1234
                           then push_bit 16 (ucast (registers ! (2 * k)))
                                OR ucast (registers ! (2 * k + 1))
                           else push_bit 16 (ucast (registers ! (2 * k + 1)))
                                OR ucast (registers ! (2 * k))))))
   \<and> (isConnected cl \<and> client cl \<and> wordOrder (converter cl) = WORD_1234 \<longrightarrow>
        fst (ReadHoldingRegisters cl formatTime 0x01 0 2 UINT32
               (Success [0x00, 0x01, 0x00, 0x02]))
        = Inr (Uint32Slice [65538]))"
  using ConvertFromRegisters_32 [of registers T c formatTime]
    ReadHoldingRegisters_65538 [of cl formatTime]
  by blast

text \<open>
  The registers 0001 0002 0003 under word order 4321, and the read on a client connected
  over TCP with the converter it is created with.
\<close>

theorem ConvertFromRegisters_32bit_pairs_witness:
  "ConvertFromRegisters (NewConverter AB WORD_4321) (\<lambda>t. []) [0x0001, 0x0002, 0x0003] UINT32
     = Inr (Uint32Slice [0x00020001])
   \<and> fst (ReadHoldingRegisters (snd (ConnectTCP NewClient None)) (\<lambda>t. []) 0x01 0 2 UINT32
            (Success [0x00, 0x01, 0x00, 0x02]))
     = Inr (Uint32Slice [65538])"
proof -
  let ?c = "NewConverter AB WORD_4321"
  let ?cl = "snd (ConnectTCP NewClient None)"
  have pre: "isConnected ?cl \<and> client ?cl \<and> wordOrder (converter ?cl) = WORD_1234"
    by (simp add: ConnectTCP_def NewClient_def NewConverter_def)
  have ne: "[0x0001, 0x0002, 0x0003 :: uint16] \<noteq> [] \<and> UINT32 \<in> {UINT32, INT32, FLOAT32}"
    by simp
  from ConvertFromRegisters_32bit_pairs
         [of "[0x0001, 0x0002, 0x0003]" UINT32 ?c "\<lambda>t. []" ?cl] ne pre
  obtain vs where
    v: "ConvertFromRegisters ?c (\<lambda>t. []) [0x0001, 0x0002, 0x0003] UINT32 = Inr (Uint32Slice vs)"
    and l: "length vs = length [0x0001, 0x0002, 0x0003 :: uint16] div 2"
    and n: "\<forall>k < length [0x0001, 0x0002, 0x0003 :: uint16] div 2.
              vs ! k = (if wordOrder ?c = WORD_1234
                        then push_bit 16 (ucast ([0x0001, 0x0002, 0x0003 :: uint16] ! (2 * k)))
                             OR ucast ([0x0001, 0x0002, 0x0003 :: uint16] ! (2 * k + 1))
                        else push_bit 16 (ucast ([0x0001, 0x0002, 0x0003 :: uint16] ! (2 * k + 1)))
                             OR ucast ([0x0001, 0x0002, 0x0003 :: uint16] ! (2 * k)))"
    and r: "fst (ReadHoldingRegisters ?cl (\<lambda>t. []) 0x01 0 2 UINT32
                  (Success [0x00, 0x01, 0x00, 0x02])) = Inr (Uint32Slice [65538])"
    by auto
  from l have l1: "length vs = 1" by simp
  from n have "vs ! 0 = 0x00020001" by (simp add: NewConverter_def)
  with l1 have "vs = [0x00020001]" by (cases vs) simp_all
  with v r show ?thesis by simp
qed

section \<open>Transaction IDs of the recorded TCP frames\<close>

lemma uint16_of_bytes:
  "push_bit 8 (ucast (ucast (drop_bit 8 v) :: byte)) OR ucast (ucast v :: byte) = (v :: uint16)"
  by (rule bit_word_eqI) (auto simp: bit_simps)

lemma mbapTransactionID_PutUint16 [simp]:
  "mbapTransactionID (PutUint16 v @ rest) = v"
  by (simp add: mbapTransactionID_def PutUint16_def uint16_of_bytes)

text \<open>\<open>recordADU\<close> returns for every request PDU that has a function code.\<close>

lemma recordADU_Some:
  assumes "p \<noteq> []"
  shows "\<exists>c'. recordADU c p r s = Some c'"
  using assms
  by (cases p; cases r) (simp_all add: recordADU_def Let_def)

lemma recordADU_TCP:
  assumes "connectionType c = TCP" and "recordADU c p r s = Some c'"
  shows "connectionType c' = TCP \<and> transactionID c' = transactionID c + 1
         \<and> (\<exists>sent. lastSentPacket c' = Some sent \<and> mbapTransactionID sent = transactionID c + 1)
         \<and> (\<forall>resp. r = Some resp \<longrightarrow>
               (\<exists>recv. lastReceivedPacket c' = Some recv
                        \<and> mbapTransactionID recv = transactionID c + 1))"
  using assms
  by (auto simp: recordADU_def Let_def split: option.splits list.splits)

text \<open>
  C8. On a TCP client, of two calls of \<open>recordADU\<close> in a row the second records a request
  whose transaction ID is that of the first plus 1, modulo 65536, and a recorded response
  carries the transaction ID of its request.
\<close>

theorem recordADU_transaction_ids:
  assumes "connectionType c = TCP"
    and "recordADU c p1 r1 s1 = Some c1"
    and "recordADU c1 p2 r2 s2 = Some c2"
  shows "\<exists>sent1 sent2.
           lastSentPacket c1 = Some sent1 \<and> lastSentPacket c2 = Some sent2
           \<and> mbapTransactionID sent2 = mbapTransactionID sent1 + 1
           \<and> unat (mbapTransactionID sent2) = (unat (mbapTransactionID sent1) + 1) mod 65536
           \<and> (\<forall>resp. r2 = Some resp \<longrightarrow>
                 (\<exists>recv. lastReceivedPacket c2 = Some recv
                          \<and> mbapTransactionID recv = mbapTransactionID sent2))"
proof -
  from recordADU_TCP [OF assms(1,2)] obtain sent1 where
    t1: "connectionType c1 = TCP" and s1: "lastSentPacket c1 = Some sent1"
    and i1: "mbapTransactionID sent1 = transactionID c + 1"
    and n1: "transactionID c1 = transactionID c + 1"
    by blast
  from recordADU_TCP [OF t1 assms(3)] obtain sent2 where
    s2: "lastSentPacket c2 = Some sent2"
    and i2: "mbapTransactionID sent2 = transactionID c1 + 1"
    and r2: "\<forall>resp. r2 = Some resp \<longrightarrow>
               (\<exists>recv. lastReceivedPacket c2 = Some recv
                        \<and> mbapTransactionID recv = transactionID c1 + 1)"
    by blast
  have e: "mbapTransactionID sent2 = mbapTransactionID sent1 + 1"
    by (simp add: i1 i2 n1)
  have "unat (mbapTransactionID sent1 + 1) = (unat (mbapTransactionID sent1) + 1) mod 65536"
    by (simp add: unat_word_ariths)
  with e s1 s2 r2 i2 show ?thesis by auto
qed

text \<open>
  A client whose counter stands at FFFE: the first request is recorded with FFFF, the
  second with 0000, and so is the response to the second.
\<close>

theorem recordADU_transaction_ids_witness:
  "\<exists>c1 c2 sent1 sent2 recv.
     recordADU ((snd (ConnectTCP NewClient None))\<lparr>transactionID := 0xFFFE\<rparr>)
       [0x03, 0x00, 0x00, 0x00, 0x01] None 0x01 = Some c1
     \<and> recordADU c1 [0x03, 0x00, 0x00, 0x00, 0x01] (Some [0x12, 0x34]) 0x01 = Some c2
     \<and> GetLastPackets c1 = (Some sent1, None)
     \<and> GetLastPackets c2 = (Some sent2, Some recv)
     \<and> sent1 = [0xFF, 0xFF, 0x00, 0x00, 0x00, 0x06, 0x01, 0x03, 0x00, 0x00, 0x00, 0x01]
     \<and> sent2 = [0x00, 0x00, 0x00, 0x00, 0x00, 0x06, 0x01, 0x03, 0x00, 0x00, 0x00, 0x01]
     \<and> recv = [0x00, 0x00, 0x00, 0x00, 0x00, 0x05, 0x01, 0x03, 0x02, 0x12, 0x34]
     \<and> mbapTransactionID sent2 = mbapTransactionID sent1 + 1
     \<and> unat (mbapTransactionID sent2) = (unat (mbapTransactionID sent1) + 1) mod 65536
     \<and> mbapTransactionID recv = mbapTransactionID sent2"
proof -
  let ?c = "(snd (ConnectTCP NewClient None))\<lparr>transactionID := 0xFFFE\<rparr>"
  let ?p = "[0x03, 0x00, 0x00, 0x00, 0x01] :: byte list"
  have t: "connectionType ?c = TCP" by (simp add: ConnectTCP_def NewClient_def)
  have ne: "?p \<noteq> []" by simp
  from recordADU_Some [OF ne] obtain c1 where a: "recordADU ?c ?p None 0x01 = Some c1"
    by blast
  from recordADU_Some [OF ne] obtain c2
    where b: "recordADU c1 ?p (Some [0x12, 0x34]) 0x01 = Some c2"
    by blast
  from recordADU_transaction_ids [OF t a b] obtain sent1 sent2 recv where
    f: "lastSentPacket c1 = Some sent1" "lastSentPacket c2 = Some sent2"
    "mbapTransactionID sent2 = mbapTransactionID sent1 + 1"
    "unat (mbapTransactionID sent2) = (unat (mbapTransactionID sent1) + 1) mod 65536"
    "lastReceivedPacket c2 = Some recv" "mbapTransactionID recv = mbapTransactionID sent2"
    by blast
  have "map_option GetLastPackets (recordADU ?c ?p None 0x01)
         = Some (Some ([0xFF, 0xFF, 0x00, 0x00, 0x00, 0x06, 0x01] @ ?p), None)"
    by code_simp
  with a have g1: "GetLastPackets c1
         = (Some ([0xFF, 0xFF, 0x00, 0x00, 0x00, 0x06, 0x01] @ ?p), None)"
    by simp
  have "map_option GetLastPackets
           (case recordADU ?c ?p None 0x01 of None \<Rightarrow> None
            | Some c1 \<Rightarrow> recordADU c1 ?p (Some [0x12, 0x34]) 0x01)
         = Some (Some ([0x00, 0x00, 0x00, 0x00, 0x00, 0x06, 0x01] @ ?p),
                 Some [0x00, 0x00, 0x00, 0x00, 0x00, 0x05, 0x01, 0x03, 0x02, 0x12, 0x34])"
    by code_simp
  with a b have g2: "GetLastPackets c2
         = (Some ([0x00, 0x00, 0x00, 0x00, 0x00, 0x06, 0x01] @ ?p),
            Some [0x00, 0x00, 0x00, 0x00, 0x00, 0x05, 0x01, 0x03, 0x02, 0x12, 0x34])"
    by simp
  from g1 g2 f have
    "sent1 = [0xFF, 0xFF, 0x00, 0x00, 0x00, 0x06, 0x01, 0x03, 0x00, 0x00, 0x00, 0x01]"
    "sent2 = [0x00, 0x00, 0x00, 0x00, 0x00, 0x06, 0x01, 0x03, 0x00, 0x00, 0x00, 0x01]"
    "recv = [0x00, 0x00, 0x00, 0x00, 0x00, 0x05, 0x01, 0x03, 0x02, 0x12, 0x34]"
    by (simp_all add: GetLastPackets_def)
  with a b g1 g2 f show ?thesis
    by (intro exI [of _ c1] exI [of _ c2] exI [of _ sent1] exI [of _ sent2] exI [of _ recv])
       simp
qed

section \<open>Parsing text: the empty-string error is never returned\<close>

declare trimLeftSpace.simps [simp del]
declare trimRightSpace.simps [simp del]

lemma splitFrom_not_Nil: "splitFrom sep cur s \<noteq> []"
  by (induction s arbitrary: cur) simp_all

lemma splitFrom_no_sep:
  "sep \<notin> set s \<Longrightarrow> splitFrom sep cur s = [rev cur @ s]"
  by (induction s arbitrary: cur) auto

lemma parseParts_error:
  "parseParts parse T ps = Inl err \<Longrightarrow> \<exists>p. err = InvalidValue T p"
  by (induction ps) (auto split: option.splits sum.splits)

lemma sliceOf_error:
  "sliceOf mk (parseParts parse T ps) \<noteq> Inl ValueStringEmpty"
  using parseParts_error [of parse T ps ValueStringEmpty]
  by (auto simp: sliceOf_def split: sum.splits)

lemma comma_not_space:
  "w \<in> set spaces2 \<union> set spaces3 \<Longrightarrow> CHR '','' \<notin> set w"
  by (auto simp: spaces2_def spaces3_def)

lemma spaceWidth_take_no_comma:
  "CHR '','' \<notin> set (take (spaceWidth s) s)"
proof (cases s)
  case Nil
  then show ?thesis by simp
next
  case (Cons c cs)
  show ?thesis
  proof (cases "asciiSpace c")
    case True
    with Cons show ?thesis by (auto simp: spaceWidth_def asciiSpace_def)
  next
    case False
    note na = this
    show ?thesis
    proof (cases "take 2 s \<in> set spaces2")
      case True
      with na Cons have "spaceWidth s = 2" by (simp add: spaceWidth_def)
      with True comma_not_space [of "take 2 s"] show ?thesis by simp
    next
      case False
      note n2 = this
      show ?thesis
      proof (cases "take 3 s \<in> set spaces3")
        case True
        with na n2 Cons have "spaceWidth s = 3" by (simp add: spaceWidth_def)
        with True comma_not_space [of "take 3 s"] show ?thesis by simp
      next
        case False
        with na n2 Cons have "spaceWidth s = 0" by (simp add: spaceWidth_def)
        then show ?thesis by simp
      qed
    qed
  qed
qed

lemma blank_no_comma:
  "trimLeftSpace s = [] \<Longrightarrow> CHR '','' \<notin> set s"
proof (induction s rule: trimLeftSpace.induct)
  case (1 s)
  show ?case
  proof (cases "spaceWidth s = 0")
    case True
    with 1(2) show ?thesis by (subst (asm) trimLeftSpace.simps) simp
  next
    case False
    with 1(2) have "trimLeftSpace (drop (spaceWidth s) s) = []"
      by (subst (asm) trimLeftSpace.simps) simp
    with 1(1) False have "CHR '','' \<notin> set (drop (spaceWidth s) s)" by simp
    moreover have "set s = set (take (spaceWidth s) s) \<union> set (drop (spaceWidth s) s)"
      by (metis append_take_drop_id set_append)
    ultimately show ?thesis using spaceWidth_take_no_comma [of s] by simp
  qed
qed

lemma TrimSpace_blank: "trimLeftSpace s = [] \<Longrightarrow> TrimSpace s = []"
  by (simp add: TrimSpace_def trimRightSpace.simps [of "[]"] spaceWidthEnd_def)

lemma parseParts_blank:
  assumes "trimLeftSpace s = []" and "parse [] = None"
  shows "sliceOf mk (parseParts parse T (Split s (CHR '','')))= Inl (InvalidValue T s)"
  using assms
  by (simp add: Split_def splitFrom_no_sep blank_no_comma TrimSpace_blank sliceOf_def)

text \<open>
  C10. \<open>ParseStringToType\<close> returns its "value string is empty" error for no input,
  since splitting on commas yields at least one part. An input that is empty or consists
  of white space only has no comma, is its own single part and trims to the empty token,
  which no parser accepts: for a numeric or boolean type the result is the parse error
  that names the part. For the two floating-point types this rests on
  \<^verbatim>\<open>strconv.ParseFloat\<close> rejecting the empty string.
\<close>

theorem ParseStringToType_never_empty_error:
  "ParseStringToType ParseFloat toFloat32 valueStr dataType \<noteq> Inl ValueStringEmpty
   \<and> 1 \<le> length (Split valueStr (CHR '',''))
   \<and> (trimLeftSpace valueStr = []
        \<and> dataType \<in> {INT16, UINT16, INT32, UINT32, INT64, UINT64, BOOL}
      \<longrightarrow> ParseStringToType ParseFloat toFloat32 valueStr dataType
            = Inl (InvalidValue dataType valueStr))
   \<and> (trimLeftSpace valueStr = [] \<and> dataType \<in> {FLOAT32, FLOAT64}
        \<and> ParseFloat [] 32 = None \<and> ParseFloat [] 64 = None
      \<longrightarrow> ParseStringToType ParseFloat toFloat32 valueStr dataType
            = Inl (InvalidValue dataType valueStr))"
proof (intro conjI impI)
  show "ParseStringToType ParseFloat toFloat32 valueStr dataType \<noteq> Inl ValueStringEmpty"
    by (cases dataType)
       (simp_all add: ParseStringToType_def Let_def sliceOf_error Split_def splitFrom_not_Nil)
  show "1 \<le> length (Split valueStr (CHR '',''))"
    using splitFrom_not_Nil [of "CHR '',''" "[]" valueStr]
    by (cases "Split valueStr (CHR '','')") (simp_all add: Split_def)
next
  assume a: "trimLeftSpace valueStr = []
        \<and> dataType \<in> {INT16, UINT16, INT32, UINT32, INT64, UINT64, BOOL}"
  have ne: "Split valueStr (CHR '','') \<noteq> []" by (simp add: Split_def splitFrom_not_Nil)
  have p: "ParseInt [] n = None" "ParseUint [] n = None" "ParseBool [] = None" for n
    by (simp_all add: ParseInt_def ParseUint_def ParseBool_def)
  from a ne show "ParseStringToType ParseFloat toFloat32 valueStr dataType
            = Inl (InvalidValue dataType valueStr)"
    by (auto simp: ParseStringToType_def Let_def parseParts_blank p)
next
  assume a: "trimLeftSpace valueStr = [] \<and> dataType \<in> {FLOAT32, FLOAT64}
        \<and> ParseFloat [] 32 = None \<and> ParseFloat [] 64 = None"
  have ne: "Split valueStr (CHR '','') \<noteq> []" by (simp add: Split_def splitFrom_not_Nil)
  from a ne show "ParseStringToType ParseFloat toFloat32 valueStr dataType
            = Inl (InvalidValue dataType valueStr)"
    by (auto simp: ParseStringToType_def Let_def parseParts_blank)
qed

text \<open>
  A blank and a tab as \<open>INT16\<close>, and the empty text as \<open>FLOAT64\<close> with a
  \<open>ParseFloat\<close> that rejects the empty string only.
\<close>

theorem ParseStringToType_never_empty_error_witness:
  "trimLeftSpace [CHR 0x20, CHR 0x09] = []
   \<and> ParseStringToType (\<lambda>t b. if t = [] then None else Some 0) (\<lambda>v. 0)
         [CHR 0x20, CHR 0x09] INT16
       = Inl (InvalidValue INT16 [CHR 0x20, CHR 0x09])
   \<and> ParseStringToType (\<lambda>t b. if t = [] then None else Some 0) (\<lambda>v. 0) [] FLOAT64
       = Inl (InvalidValue FLOAT64 [])
   \<and> ParseStringToType (\<lambda>t b. if t = [] then None else Some 0) (\<lambda>v. 0) [] FLOAT64
       \<noteq> Inl ValueStringEmpty"
proof -
  let ?pf = "\<lambda>(t :: string) (b :: nat). if t = [] then None else Some (0 :: uint64)"
  let ?tf = "\<lambda>v :: uint64. 0 :: uint32"
  have b1: "trimLeftSpace [CHR 0x20, CHR 0x09] = []" by code_simp
  have b2: "trimLeftSpace [] = []" by code_simp
  have t1: "INT16 \<in> {INT16, UINT16, INT32, UINT32, INT64, UINT64, BOOL}" by simp
  have t2: "FLOAT64 \<in> {FLOAT32, FLOAT64}" by simp
  have f: "?pf [] 32 = None \<and> ?pf [] 64 = None" by simp
  from ParseStringToType_never_empty_error [of ?pf ?tf "[CHR 0x20, CHR 0x09]" INT16] b1 t1
  have r1: "ParseStringToType ?pf ?tf [CHR 0x20, CHR 0x09] INT16
            = Inl (InvalidValue INT16 [CHR 0x20, CHR 0x09])"
    by blast
  from ParseStringToType_never_empty_error [of ?pf ?tf "[]" FLOAT64] b2 t2 f
  have r2: "ParseStringToType ?pf ?tf [] FLOAT64 = Inl (InvalidValue FLOAT64 [])"
    and r3: "ParseStringToType ?pf ?tf [] FLOAT64 \<noteq> Inl ValueStringEmpty"
    by blast+
  from b1 r1 r2 r3 show ?thesis by blast
qed

section \<open>Text in registers\<close>

lemma byte_mask: "(0xFF :: uint16) = mask 8"
  by (simp add: mask_eq_exp_minus_1)

lemma hi_byte_of_pair:
  "(ucast (drop_bit 8 (push_bit 8 (ucast b0) OR ucast (b1 :: byte) :: uint16)) :: byte)
     = (b0 :: byte)"
  by (rule bit_word_eqI) (auto simp: bit_simps dest: bit_imp_le_length)

lemma lo_byte_of_pair:
  "(ucast ((push_bit 8 (ucast (b0 :: byte)) OR ucast b1 :: uint16) AND 0xFF) :: byte)
     = (b1 :: byte)"
  unfolding byte_mask
  by (rule bit_word_eqI) (auto simp: bit_simps)

lemma pair_of_bytes:
  "push_bit 8 (ucast (ucast (drop_bit 8 reg) :: byte)) OR ucast (ucast (reg AND 0xFF) :: byte)
     = (reg :: uint16)"
  unfolding byte_mask
  by (rule bit_word_eqI) (auto simp: bit_simps)

lemma regBytes_pair:
  "regBytes c (if byteOrder c = AB then push_bit 8 (ucast b0) OR ucast b1
               else push_bit 8 (ucast b1) OR ucast b0) = [b0, b1]"
  unfolding regBytes_def
  by (simp only: hi_byte_of_pair lo_byte_of_pair if_True if_False split: if_split) simp

lemma asciiChars_concat: "asciiChars c regs = concat (map (regBytes c) regs)"
  by (induction regs) simp_all

lemma asciiPairs_even:
  "even (length bs) \<Longrightarrow>
     \<exists>regs. asciiPairs c bs = Some regs \<and> concat (map (regBytes c) regs) = bs
            \<and> length regs = length bs div 2"
proof (induction c bs rule: asciiPairs.induct)
  case (1 c)
  show ?case by simp
next
  case (2 c b)
  then show ?case by simp
next
  case (3 c b0 b1 bs)
  then obtain regs where "asciiPairs c bs = Some regs"
    "concat (map (regBytes c) regs) = bs" "length regs = length bs div 2"
    by auto
  then show ?case
    by (simp add: regBytes_pair)
qed

lemma takeWhile_eq_replicate:
  "takeWhile (\<lambda>x. x = z) xs = replicate (length (takeWhile (\<lambda>x. x = z) xs)) z"
  by (induction xs) simp_all

lemma TrimRight_decomp:
  "\<exists>n. TrimRight s z @ replicate n z = s"
proof -
  have "rev s = takeWhile (\<lambda>x. x = z) (rev s) @ dropWhile (\<lambda>x. x = z) (rev s)"
    by simp
  then have "s = rev (dropWhile (\<lambda>x. x = z) (rev s)) @ rev (takeWhile (\<lambda>x. x = z) (rev s))"
    by (metis rev_append rev_rev_ident)
  moreover have "rev (takeWhile (\<lambda>x. x = z) (rev s))
                 = replicate (length (takeWhile (\<lambda>x. x = z) (rev s))) z"
    using takeWhile_eq_replicate [of z "rev s"] by (metis rev_replicate)
  ultimately show ?thesis unfolding TrimRight_def by metis
qed

lemma TrimRight_last:
  "TrimRight s z = [] \<or> last (TrimRight s z) \<noteq> z"
proof (cases "dropWhile (\<lambda>x. x = z) (rev s)")
  case Nil
  then show ?thesis by (simp add: TrimRight_def)
next
  case (Cons y ys)
  then have "y \<noteq> z" using hd_dropWhile [of "\<lambda>x. x = z" "rev s"] by auto
  with Cons show ?thesis by (simp add: TrimRight_def)
qed

lemma bytesOfString_pad_even: "even (length (asciiPad bs))"
  by (cases "even (length bs)") (simp_all add: asciiPad_def mod_2_eq_odd)

text \<open>
  C7. \<open>convertToASCII\<close> lays out the two bytes of every register in the configured
  byte order and removes NUL bytes from the end only: the result followed by some number
  of NULs is the whole byte string, and the result does not end in NUL. The registers
  4142 0000 decode to "AB" under byte order AB, and a NUL between two letters stays.
  \<open>asciiToRegisters\<close> returns registers for every string, one for every two bytes,
  whose bytes in the configured order are the bytes of the string followed by one zero
  byte when their number is odd.
\<close>

theorem ascii_decode_encode:
  "(\<exists>n. convertToASCII c registers @ replicate n (CHR 0x00)
          = stringOfBytes (concat (map (regBytes c) registers)))
   \<and> (convertToASCII c registers = [] \<or> last (convertToASCII c registers) \<noteq> CHR 0x00)
   \<and> convertToASCII (NewConverter AB wo) [0x4142, 0x0000] = ''AB''
   \<and> convertToASCII (NewConverter AB wo) [0x4100, 0x4200] = [CHR ''A'', CHR 0x00, CHR ''B'']
   \<and> (\<exists>regs. asciiToRegisters c v = Some regs
         \<and> length regs = (length v + 1) div 2
         \<and> concat (map (regBytes c) regs)
            = bytesOfString v @ (if odd (length v) then [0x00] else []))"
proof (intro conjI)
  show "\<exists>n. convertToASCII c registers @ replicate n (CHR 0x00)
          = stringOfBytes (concat (map (regBytes c) registers))"
    by (simp add: convertToASCII_def asciiChars_concat TrimRight_decomp)
  show "convertToASCII c registers = [] \<or> last (convertToASCII c registers) \<noteq> CHR 0x00"
    unfolding convertToASCII_def by (rule TrimRight_last)
  show "convertToASCII (NewConverter AB wo) [0x4142, 0x0000] = ''AB''"
    by code_simp
  show "convertToASCII (NewConverter AB wo) [0x4100, 0x4200] = [CHR ''A'', CHR 0x00, CHR ''B'']"
    by code_simp
  from asciiPairs_even [OF bytesOfString_pad_even, of c "bytesOfString v"]
  show "\<exists>regs. asciiToRegisters c v = Some regs
         \<and> length regs = (length v + 1) div 2
         \<and> concat (map (regBytes c) regs)
            = bytesOfString v @ (if odd (length v) then [0x00] else [])"
    by (auto simp: asciiToRegisters_def asciiPad_def bytesOfString_def split: if_splits)
qed

section \<open>Round trip through the converter\<close>

lemma word_mask16: "(0xFFFF :: uint32) = mask 16" "(0xFFFF :: uint64) = mask 16"
  by (simp_all add: mask_eq_exp_minus_1)

lemma hi32: "(ucast (drop_bit 16 (push_bit 16 (ucast a) OR ucast (b :: uint16) :: uint32)) :: uint16)
               = (a :: uint16)"
  by (rule bit_word_eqI) (auto simp: bit_simps dest: bit_imp_le_length)

lemma lo32: "(ucast ((push_bit 16 (ucast (a :: uint16)) OR ucast b :: uint32) AND 0xFFFF) :: uint16)
               = (b :: uint16)"
  unfolding word_mask16
  by (rule bit_word_eqI) (auto simp: bit_simps)

lemma w64_3:
  "(ucast (drop_bit 48 (push_bit 48 (ucast (a :: uint16)) OR push_bit 32 (ucast (b :: uint16))
       OR push_bit 16 (ucast (c :: uint16)) OR ucast (d :: uint16) :: uint64)) :: uint16) = a"
  by (rule bit_word_eqI) (auto simp: bit_simps dest: bit_imp_le_length)

lemma w64_2:
  "(ucast (drop_bit 32 (push_bit 48 (ucast (a :: uint16)) OR push_bit 32 (ucast (b :: uint16))
       OR push_bit 16 (ucast (c :: uint16)) OR ucast (d :: uint16) :: uint64)) :: uint16) = b"
  by (rule bit_word_eqI) (auto simp: bit_simps dest: bit_imp_le_length)

lemma w64_1:
  "(ucast (drop_bit 16 (push_bit 48 (ucast (a :: uint16)) OR push_bit 32 (ucast (b :: uint16))
       OR push_bit 16 (ucast (c :: uint16)) OR ucast (d :: uint16) :: uint64)) :: uint16) = c"
  by (rule bit_word_eqI) (auto simp: bit_simps dest: bit_imp_le_length)

lemma w64_0:
  "(ucast ((push_bit 48 (ucast (a :: uint16)) OR push_bit 32 (ucast (b :: uint16))
       OR push_bit 16 (ucast (c :: uint16)) OR ucast (d :: uint16) :: uint64) AND 0xFFFF) :: uint16) = d"
  unfolding word_mask16
  by (rule bit_word_eqI) (auto simp: bit_simps dest: bit_imp_le_length)

lemma concat_pairs:
  "2 * n \<le> length xs \<Longrightarrow>
     concat (map (\<lambda>k. [xs ! (2 * k), xs ! (2 * k + 1)]) [0..<n]) = take (2 * n) xs"
proof (induction n)
  case 0
  show ?case by simp
next
  case (Suc n)
  then have "take (2 * Suc n) xs = take (2 * n) xs @ [xs ! (2 * n), xs ! (2 * n + 1)]"
    by (simp add: take_Suc_conv_app_nth)
  with Suc show ?case by simp
qed

lemma concat_quads:
  "4 * n \<le> length xs \<Longrightarrow>
     concat (map (\<lambda>k. [xs ! (4 * k), xs ! (4 * k + 1), xs ! (4 * k + 2), xs ! (4 * k + 3)]) [0..<n])
       = take (4 * n) xs"
proof (induction n)
  case 0
  show ?case by simp
next
  case (Suc n)
  have e: "4 * Suc n = Suc (Suc (Suc (Suc (4 * n))))" by simp
  from Suc have "take (Suc (Suc (Suc (Suc (4 * n))))) xs
       = take (4 * n) xs @ [xs ! (4 * n), xs ! (4 * n + 1), xs ! (4 * n + 2), xs ! (4 * n + 3)]"
    by (simp add: take_Suc_conv_app_nth numeral_3_eq_3 numeral_2_eq_2)
  with Suc show ?case unfolding e by simp
qed

declare loop64.simps [simp del]

lemma loop64_eq:
  "loop64 wo regs i result =
     result @ map (\<lambda>k. if wo = WORD_1234
                         then push_bit 48 (ucast (regs ! (i + 4 * k)))
                              OR push_bit 32 (ucast (regs ! (i + 4 * k + 1)))
                              OR push_bit 16 (ucast (regs ! (i + 4 * k + 2)))
                              OR ucast (regs ! (i + 4 * k + 3))
                         else push_bit 48 (ucast (regs ! (i + 4 * k + 3)))
                              OR push_bit 32 (ucast (regs ! (i + 4 * k + 2)))
                              OR push_bit 16 (ucast (regs ! (i + 4 * k + 1)))
                              OR ucast (regs ! (i + 4 * k)))
               [0..<(length regs - i) div 4]"
proof (induction wo regs i result rule: loop64.induct)
  case (1 wo regs i result)
  show ?case
  proof (cases "i < length regs")
    case False
    then show ?thesis by (subst loop64.simps) simp
  next
    case True
    note lt = this
    show ?thesis
    proof (cases "i + 3 < length regs")
      case True
      then have "length regs - i = length regs - (i + 4) + 4" by simp
      then have n: "(length regs - i) div 4 = Suc ((length regs - (i + 4)) div 4)"
        by (simp only: div_add_self2)
      from lt True 1 show ?thesis
        by (subst loop64.simps) (simp add: n map_upt_Suc add_ac del: upt_Suc)
    next
      case False
      with lt have n: "(length regs - i) div 4 = 0" "(length regs - (i + 4)) div 4 = 0"
        by simp_all
      from lt False 1 show ?thesis
        by (subst loop64.simps) (simp add: n)
    qed
  qed
qed

lemma split32_join:
  "uint32ToRegisters c (if wordOrder c = WORD_1234 then push_bit 16 (ucast a) OR ucast b
                        else push_bit 16 (ucast b) OR ucast a) = [a, b]"
proof (cases "wordOrder c = WORD_1234")
  case True
  then show ?thesis by (simp only: uint32ToRegisters_def simp_thms if_True hi32 lo32)
next
  case False
  then show ?thesis by (simp only: uint32ToRegisters_def simp_thms if_False hi32 lo32)
qed

lemma split64_join:
  "uint64ToRegisters c
     (if wordOrder c = WORD_1234
      then push_bit 48 (ucast r0) OR push_bit 32 (ucast r1) OR push_bit 16 (ucast r2) OR ucast r3
      else push_bit 48 (ucast r3) OR push_bit 32 (ucast r2) OR push_bit 16 (ucast r1) OR ucast r0)
   = [r0, r1, r2, r3]"
proof (cases "wordOrder c = WORD_1234")
  case True
  then show ?thesis
    by (simp only: uint64ToRegisters_def Let_def simp_thms if_True w64_0 w64_1 w64_2 w64_3)
next
  case False
  then show ?thesis
    by (simp only: uint64ToRegisters_def Let_def simp_thms if_False w64_0 w64_1 w64_2 w64_3)
qed

lemma roundtrip32:
  assumes "length regs mod 2 = 0"
  shows "concat (map (uint32ToRegisters c) (loop32 (wordOrder c) regs 0 [])) = regs"
proof -
  from assms have l: "2 * (length regs div 2) = length regs" by presburger
  have "concat (map (uint32ToRegisters c) (loop32 (wordOrder c) regs 0 []))
        = concat (map (\<lambda>k. [regs ! (2 * k), regs ! (2 * k + 1)]) [0..<length regs div 2])"
    by (simp add: loop32_eq o_def split32_join)
  also have "\<dots> = take (2 * (length regs div 2)) regs"
    by (rule concat_pairs) (simp add: l)
  finally show ?thesis by (simp add: l)
qed

lemma roundtrip64:
  assumes "length regs mod 4 = 0"
  shows "concat (map (uint64ToRegisters c) (loop64 (wordOrder c) regs 0 [])) = regs"
proof -
  from assms have l: "4 * (length regs div 4) = length regs" by presburger
  have "concat (map (uint64ToRegisters c) (loop64 (wordOrder c) regs 0 []))
        = concat (map (\<lambda>k. [regs ! (4 * k), regs ! (4 * k + 1), regs ! (4 * k + 2),
                             regs ! (4 * k + 3)]) [0..<length regs div 4])"
    by (simp add: loop64_eq o_def split64_join)
  also have "\<dots> = take (4 * (length regs div 4)) regs"
    by (rule concat_quads) (simp add: l)
  finally show ?thesis by (simp add: l)
qed

lemma same_split32:
  "int32ToRegisters c = uint32ToRegisters c" "float32ToRegisters c = uint32ToRegisters c"
  by (simp_all add: fun_eq_iff int32ToRegisters_def float32ToRegisters_def
      uint32ToRegisters_def Let_def)

lemma same_split64:
  "int64ToRegisters c = uint64ToRegisters c" "float64ToRegisters c = uint64ToRegisters c"
  by (simp_all add: fun_eq_iff int64ToRegisters_def float64ToRegisters_def
      uint64ToRegisters_def Let_def)


lemma regBytes_join:
  "\<exists>x y. regBytes c reg = [x, y]
         \<and> (if byteOrder c = AB then push_bit 8 (ucast x) OR ucast y
             else push_bit 8 (ucast y) OR ucast x) = reg"
  by (simp add: regBytes_def pair_of_bytes)

lemma asciiPairs_regBytes:
  "asciiPairs c (concat (map (regBytes c) regs)) = Some regs"
proof (induction regs)
  case Nil
  show ?case by simp
next
  case (Cons reg regs)
  from regBytes_join [of c reg] obtain x y where "regBytes c reg = [x, y]"
    "(if byteOrder c = AB then push_bit 8 (ucast x) OR ucast y
      else push_bit 8 (ucast y) OR ucast x) = reg"
    by blast
  with Cons show ?case by simp
qed

lemma length_regBytes: "length (concat (map (regBytes c) regs)) = 2 * length regs"
  by (induction regs) (simp_all add: regBytes_def)

lemma bytesOfString_stringOfBytes: "bytesOfString (stringOfBytes bs) = bs"
proof -
  have "(of_nat (of_char (char_of (unat b))) :: byte) = b" for b :: byte
  proof -
    have "unat b < 256" using unsigned_less [of b] by simp
    then show ?thesis by simp
  qed
  then show ?thesis by (simp add: bytesOfString_def stringOfBytes_def o_def)
qed

lemma char_of_byte_NUL: "(char_of (unat (b :: byte)) = CHR 0x00) = (b = 0)"
proof -
  have "unat b < 256" using unsigned_less [of b] by simp
  then have "take_bit 8 (unat b) = unat b" by (simp add: take_bit_nat_eq_self_iff)
  then show ?thesis by (simp add: char_of_eq_iff unat_eq_0)
qed

lemma TrimRight_bytes:
  "bytesOfString (TrimRight (stringOfBytes bs) (CHR 0x00))
     = rev (dropWhile (\<lambda>b. b = 0) (rev bs))"
proof -
  have "TrimRight (stringOfBytes bs) (CHR 0x00)
        = stringOfBytes (rev (dropWhile (\<lambda>b. b = 0) (rev bs)))"
    by (simp add: TrimRight_def stringOfBytes_def rev_map dropWhile_map o_def char_of_byte_NUL)
  then show ?thesis by (simp add: bytesOfString_stringOfBytes)
qed

lemma asciiToRegisters_Some:
  "\<exists>regs. asciiToRegisters c v = Some regs \<and> length regs = (length v + 1) div 2"
  using asciiPairs_even [OF bytesOfString_pad_even, of c "bytesOfString v"]
  by (auto simp: asciiToRegisters_def asciiPad_def bytesOfString_def split: if_splits)

lemma regBytes_zero: "regBytes c reg = [0, 0] \<Longrightarrow> reg = 0"
  using regBytes_join [of c reg] by auto

lemma concat_regBytes_last:
  assumes "registers \<noteq> []"
  shows "concat (map (regBytes c) registers)
         = concat (map (regBytes c) (butlast registers)) @ regBytes c (last registers)"
proof -
  from assms have "registers = butlast registers @ [last registers]" by simp
  then have "concat (map (regBytes c) registers)
             = concat (map (regBytes c) (butlast registers @ [last registers]))"
    by simp
  then show ?thesis by simp
qed

text \<open>
  A last register other than 0 has a byte other than NUL: at most one NUL is trimmed, and
  the padding restores it.
\<close>

lemma ascii_roundtrip:
  assumes "registers \<noteq> []" and "last registers \<noteq> 0"
  shows "asciiToRegisters c (convertToASCII c registers) = Some registers"
proof -
  let ?pre = "concat (map (regBytes c) (butlast registers))"
  from regBytes_join [of c "last registers"] obtain x y
    where xy: "regBytes c (last registers) = [x, y]" by blast
  with assms(2) regBytes_zero [of c "last registers"] have nz: "x \<noteq> 0 \<or> y \<noteq> 0" by auto
  from xy concat_regBytes_last [OF assms(1), of c]
  have b: "concat (map (regBytes c) registers) = ?pre @ [x, y]" by simp
  have ev: "even (length ?pre)" by (simp add: length_regBytes)
  have "asciiPad (rev (dropWhile (\<lambda>b. b = 0) (rev (?pre @ [x, y])))) = ?pre @ [x, y]"
  proof (cases "y = 0")
    case True
    with nz have "x \<noteq> 0" by simp
    with True ev show ?thesis by (simp add: asciiPad_def mod_2_eq_odd)
  next
    case False
    with ev show ?thesis by (simp add: asciiPad_def mod_2_eq_odd)
  qed
  then have "asciiToRegisters c (convertToASCII c registers)
             = asciiPairs c (concat (map (regBytes c) registers))"
    by (simp add: asciiToRegisters_def convertToASCII_def asciiChars_concat TrimRight_bytes b)
  then show ?thesis by (simp add: asciiPairs_regBytes)
qed

lemma length_TrimRight: "length (TrimRight s z) \<le> length s"
  by (simp add: TrimRight_def length_dropWhile_le [of _ "rev s", simplified])

text \<open>
  A last register of 0 is two NULs at the end: both are trimmed, and the text encodes to
  fewer registers than it came from.
\<close>

lemma ascii_shorter:
  assumes "registers \<noteq> []" and "last registers = 0"
  shows "\<exists>regs. asciiToRegisters c (convertToASCII c registers) = Some regs
                \<and> length regs < length registers"
proof -
  let ?pre = "concat (map (regBytes c) (butlast registers))"
  have z: "regBytes c 0 = [0, 0]" by (simp add: regBytes_def)
  from assms z concat_regBytes_last [OF assms(1), of c]
  have b: "concat (map (regBytes c) registers) = ?pre @ [0, 0]" by simp
  have nul: "char_of (0 :: nat) = CHR 0x00" by (simp add: char_of_eq_iff)
  have "convertToASCII c registers = TrimRight (stringOfBytes ?pre) (CHR 0x00)"
    by (simp add: convertToASCII_def asciiChars_concat b TrimRight_def stringOfBytes_def nul)
  then have "length (convertToASCII c registers) \<le> length (stringOfBytes ?pre)"
    by (simp only: length_TrimRight)
  define m where "m = length (butlast registers)"
  then have l: "length (convertToASCII c registers) \<le> 2 * m"
    using \<open>length (convertToASCII c registers) \<le> length (stringOfBytes ?pre)\<close>
    by (simp add: stringOfBytes_def length_regBytes)
  from asciiToRegisters_Some [of c "convertToASCII c registers"] obtain regs
    where r: "asciiToRegisters c (convertToASCII c registers) = Some regs"
      and n: "length regs = (length (convertToASCII c registers) + 1) div 2"
    by blast
  from assms(1) have "length registers = Suc m" by (simp add: m_def)
  with l n have "length regs < length registers" by arith
  with r show ?thesis by blast
qed

lemma timestamp_registers:
  assumes "registers \<noteq> []" and "length registers mod 2 = 0"
    and "\<forall>t. length (formatTime t) = 19"
  shows "\<exists>regs. roundTrip c formatTime registers UNIX_TIMESTAMP = Inr regs \<and> length regs = 10"
proof -
  from assms(1,2) obtain r0 r1 rest where rs: "registers = r0 # r1 # rest"
    by (cases registers; cases "tl registers") auto
  let ?v = "convertToTimestamp c formatTime registers"
  from rs assms(3) have l: "length ?v = 19" by simp
  from asciiToRegisters_Some [of c ?v] l obtain regs
    where "asciiToRegisters c ?v = Some regs" "length regs = 10"
    by auto
  with rs show ?thesis
    by (simp add: roundTrip_def ConvertFromRegisters_def)
qed

text \<open>
  C4, as amended. Take a register array whose length is a positive multiple of
  \<open>RegistersPerValue\<close> of the type, and decode and encode it again under one converter.
  For the eight numeric types (the integers and floating-point numbers of 16, 32 and 64
  bits) the array comes back. For \<open>ASCII\<close> it comes back exactly when the last register
  is not 0. For \<open>BYTE\<close> and \<open>BOOL\<close> the encoder rejects the decoded value. For
  \<open>UNIX_TIMESTAMP\<close> the decoded value is the formatted date, and with the 19 characters
  of \<^verbatim>\<open>2006-01-02 15:04:05\<close> it encodes to ten registers.
\<close>

theorem roundTrip_numeric_and_text:
  assumes "registers \<noteq> []"
    and "length registers mod RegistersPerValue T = 0"
  shows "(T \<in> {INT16, UINT16, INT32, UINT32, INT64, UINT64, FLOAT32, FLOAT64}
            \<longrightarrow> roundTrip c formatTime registers T = Inr registers)
         \<and> (T = ASCII
            \<longrightarrow> (roundTrip c formatTime registers T = Inr registers) = (last registers \<noteq> 0))
         \<and> (T \<in> {BYTE, BOOL}
            \<longrightarrow> roundTrip c formatTime registers T = Inl UnsupportedConversion)
         \<and> (T = UNIX_TIMESTAMP \<and> (\<forall>t. length (formatTime t) = 19)
            \<longrightarrow> (\<exists>regs. roundTrip c formatTime registers T = Inr regs \<and> length regs = 10))"
proof (intro conjI impI)
  assume "T \<in> {INT16, UINT16, INT32, UINT32, INT64, UINT64, FLOAT32, FLOAT64}"
  with assms show "roundTrip c formatTime registers T = Inr registers"
    by (auto simp: roundTrip_def ConvertFromRegisters_def convertToInt16Array_def
        convertToUint16Array_def convertToInt32Array_def convertToUint32Array_def
        convertToFloat32Array_def convertToInt64Array_def convertToUint64Array_def
        convertToFloat64Array_def same_split32 same_split64 roundtrip32 roundtrip64)
next
  assume t: "T = ASCII"
  show "(roundTrip c formatTime registers T = Inr registers) = (last registers \<noteq> 0)"
  proof (cases "last registers = 0")
    case True
    from ascii_shorter [OF assms(1) True, of c] obtain regs
      where "asciiToRegisters c (convertToASCII c registers) = Some regs"
        "length regs < length registers"
      by blast
    with t assms(1) True show ?thesis
      by (auto simp: roundTrip_def ConvertFromRegisters_def)
  next
    case False
    with t assms(1) show ?thesis
      by (simp add: roundTrip_def ConvertFromRegisters_def ascii_roundtrip)
  qed
next
  assume "T \<in> {BYTE, BOOL}"
  with assms(1) show "roundTrip c formatTime registers T = Inl UnsupportedConversion"
    by (auto simp: roundTrip_def ConvertFromRegisters_def)
next
  assume "T = UNIX_TIMESTAMP \<and> (\<forall>t. length (formatTime t) = 19)"
  with assms timestamp_registers [of registers formatTime c]
  show "\<exists>regs. roundTrip c formatTime registers T = Inr regs \<and> length regs = 10"
    by simp
qed

text \<open>
  Four registers as \<open>INT64\<close> under word order 4321; the texts of the registers 4142 4300
  and 0041, which come back, and of 4142 0000, which does not; one register as \<open>BOOL\<close>;
  two registers as a timestamp under a formatter that prints one fixed date.
\<close>

theorem roundTrip_numeric_and_text_witness:
  "roundTrip (NewConverter BA WORD_4321) (\<lambda>t. []) [0x0001, 0x0002, 0x0003, 0x8004] INT64
     = Inr [0x0001, 0x0002, 0x0003, 0x8004]
   \<and> roundTrip (NewConverter AB WORD_1234) (\<lambda>t. []) [0x4142, 0x4300] ASCII
     = Inr [0x4142, 0x4300]
   \<and> roundTrip (NewConverter AB WORD_1234) (\<lambda>t. []) [0x0041] ASCII = Inr [0x0041]
   \<and> roundTrip (NewConverter AB WORD_1234) (\<lambda>t. []) [0x4142, 0x0000] ASCII
     \<noteq> Inr [0x4142, 0x0000]
   \<and> roundTrip (NewConverter AB WORD_1234) (\<lambda>t. []) [0x0005] BOOL = Inl UnsupportedConversion
   \<and> (\<exists>regs. roundTrip (NewConverter AB WORD_1234) (\<lambda>t. ''1970-01-01 00:00:00'')
                 [0x0000, 0x0000] UNIX_TIMESTAMP = Inr regs
             \<and> length regs = 10)"
proof -
  let ?c = "NewConverter AB WORD_1234"
  let ?f = "\<lambda>t :: uint32. [] :: string"
  let ?d = "\<lambda>t :: uint32. ''1970-01-01 00:00:00''"
  have w1: "roundTrip (NewConverter BA WORD_4321) ?f [0x0001, 0x0002, 0x0003, 0x8004] INT64
     = Inr [0x0001, 0x0002, 0x0003, 0x8004]"
    using roundTrip_numeric_and_text
            [where registers = "[0x0001, 0x0002, 0x0003, 0x8004]" and T = INT64
               and c = "NewConverter BA WORD_4321" and formatTime = "?f"]
    by simp
  have w2: "roundTrip ?c ?f [0x4142, 0x4300] ASCII = Inr [0x4142, 0x4300]"
    using roundTrip_numeric_and_text
            [where registers = "[0x4142, 0x4300]" and T = ASCII and c = "?c"
               and formatTime = "?f"]
    by simp
  have w3: "roundTrip ?c ?f [0x0041] ASCII = Inr [0x0041]"
    using roundTrip_numeric_and_text
            [where registers = "[0x0041]" and T = ASCII and c = "?c" and formatTime = "?f"]
    by simp
  have w4: "roundTrip ?c ?f [0x4142, 0x0000] ASCII \<noteq> Inr [0x4142, 0x0000]"
    using roundTrip_numeric_and_text
            [where registers = "[0x4142, 0x0000]" and T = ASCII and c = "?c"
               and formatTime = "?f"]
    by simp
  have w5: "roundTrip ?c ?f [0x0005] BOOL = Inl UnsupportedConversion"
    using roundTrip_numeric_and_text
            [where registers = "[0x0005]" and T = BOOL and c = "?c" and formatTime = "?f"]
    by simp
  have w6: "\<exists>regs. roundTrip ?c ?d [0x0000, 0x0000] UNIX_TIMESTAMP = Inr regs
                  \<and> length regs = 10"
    using roundTrip_numeric_and_text
            [where registers = "[0x0000, 0x0000]" and T = UNIX_TIMESTAMP and c = "?c"
               and formatTime = "?d"]
    by simp
  from w1 w2 w3 w4 w5 w6 show ?thesis by (intro conjI)
qed

text \<open>
  C4 as stated fails. One register decoded as \<open>BYTE\<close> (or as \<open>BOOL\<close>) is a value that
  \<open>ConvertToRegisters\<close> has no case for; the text of the registers 4142 0000 loses both
  trailing NULs and comes back as the single register 4142; and the two registers of the
  timestamp 0 come back as the ten registers of its printed date.
\<close>

theorem roundTrip_counterexample:
  "length [0x0001 :: uint16] mod RegistersPerValue BYTE = 0
   \<and> roundTrip (NewConverter AB WORD_1234) (\<lambda>t. []) [0x0001] BYTE = Inl UnsupportedConversion
   \<and> roundTrip (NewConverter AB WORD_1234) (\<lambda>t. []) [0x0001] BYTE \<noteq> Inr [0x0001]
   \<and> roundTrip (NewConverter AB WORD_1234) (\<lambda>t. []) [0x0005] BOOL = Inl UnsupportedConversion
   \<and> roundTrip (NewConverter AB WORD_1234) (\<lambda>t. []) [0x4142, 0x0000] ASCII = Inr [0x4142]
   \<and> length [0x0000, 0x0000 :: uint16] mod RegistersPerValue UNIX_TIMESTAMP = 0
   \<and> roundTrip (NewConverter AB WORD_1234) (\<lambda>t. ''1970-01-01 00:00:00'')
        [0x0000, 0x0000] UNIX_TIMESTAMP
     = Inr [0x3139, 0x3730, 0x2D30, 0x312D, 0x3031, 0x2030, 0x303A, 0x3030, 0x3A30, 0x3000]"
  by code_simp

section \<open>The last exchanged packets\<close>

lemma PutUint16_zero: "PutUint16 0 = [0x00, 0x00]"
  by (simp add: PutUint16_def)

lemma calculateCRC_low:
  "(ucast (calculateCRC d AND 0xFF) :: byte) = ucast (drop_bit 8 (crcLoop d 0xFFFF))"
  unfolding calculateCRC_def Let_def byte_mask
  by (rule bit_word_eqI) (auto simp: bit_simps)

lemma calculateCRC_high:
  "(ucast (drop_bit 8 (calculateCRC d)) :: byte) = ucast (crcLoop d 0xFFFF)"
  unfolding calculateCRC_def Let_def
  by (rule bit_word_eqI) (auto simp: bit_simps)

lemma recordADU_recorded:
  assumes "fc \<in> {0x01, 0x02, 0x03, 0x04, 0x05, 0x06, 0x0F, 0x10}"
  shows "\<exists>c'. recordADU c (fc # rest) (case rep of Failure err \<Rightarrow> None | Success d \<Rightarrow> Some d) u
                 = Some c'
              \<and> recorded c u (fc # rest) (responseOf fc a rep) (GetLastPackets c')"
proof (cases rep)
  case (Failure err)
  then show ?thesis
    by (simp add: recordADU_def Let_def recorded_def responseOf_def GetLastPackets_def
        wrapsPDU_def PutUint16_zero calculateCRC_low calculateCRC_high)
next
  case (Success d)
  with assms show ?thesis
    by (auto simp: recordADU_def Let_def recorded_def responseOf_def GetLastPackets_def
        wrapsPDU_def PutUint16_zero fullResponsePDU_def calculateCRC_low calculateCRC_high)
qed

lemma packCoils_length: "length (packCoils vs i data) = length data"
  by (induction vs arbitrary: i data) simp_all

lemma bit_set_byte:
  "j < 8 \<Longrightarrow> bit ((w :: byte) OR push_bit m 1) j = (bit w j \<or> j = m)"
  by (auto simp: bit_simps)

lemma bit_set_byte':
  "j < 8 \<Longrightarrow> bit ((w :: byte) OR 2 ^ m) j = (bit w j \<or> m = j)"
  by (auto simp: bit_simps)

lemma packCoils_bit:
  assumes "k < length data" and "j < 8"
  shows "bit (packCoils vs i data ! k) j
         = (bit (data ! k) j \<or> (\<exists>m < length vs. i + m = 8 * k + j \<and> vs ! m))"
  using assms
proof (induction vs arbitrary: i data)
  case Nil
  show ?case by simp
next
  case (Cons v vs)
  let ?data = "if v then data[i div 8 := data ! (i div 8) OR push_bit (i mod 8) 1] else data"
  have here: "(i div 8 = k \<and> i mod 8 = j) = (i = 8 * k + j)"
    using Cons.prems(2) by auto
  have d: "bit (?data ! k) j = (bit (data ! k) j \<or> (v \<and> i = 8 * k + j))"
  proof (cases "v \<and> i div 8 = k")
    case True
    with Cons.prems show ?thesis by (simp add: bit_set_byte' flip: here)
  next
    case False
    with Cons.prems show ?thesis by (auto simp flip: here)
  qed
  have l: "k < length ?data" using Cons.prems(1) by simp
  have "bit (packCoils (v # vs) i data ! k) j
        = (bit (?data ! k) j \<or> (\<exists>m < length vs. Suc i + m = 8 * k + j \<and> vs ! m))"
    using Cons.IH [OF l Cons.prems(2), of "Suc i"] by simp
  also have "\<dots> = (bit (data ! k) j
                   \<or> (\<exists>m < length (v # vs). i + m = 8 * k + j \<and> (v # vs) ! m))"
    unfolding d by (auto simp: less_Suc_eq_0_disj)
  finally show ?case .
qed

lemma packCoils_coilByte:
  "packCoils vals 0 (replicate n 0) = map (coilByte vals) [0..<n]"
proof (rule nth_equalityI)
  show "length (packCoils vals 0 (replicate n 0)) = length (map (coilByte vals) [0..<n])"
    by (simp add: packCoils_length)
next
  fix k
  assume "k < length (packCoils vals 0 (replicate n 0))"
  then have k: "k < n" by (simp add: packCoils_length)
  have "packCoils vals 0 (replicate n 0) ! k = coilByte vals k"
  proof (rule bit_word_eqI)
    fix j
    assume "j < LENGTH(8)"
    then have j: "j < 8" by simp
    from k j show "bit (packCoils vals 0 (replicate n 0) ! k) j = bit (coilByte vals k) j"
      by (simp add: packCoils_bit coilByte_def bit_horner_sum_bit_word_iff)
  qed
  with k show "packCoils vals 0 (replicate n 0) ! k = map (coilByte vals) [0..<n] ! k"
    by simp
qed

lemma readRegisters_recorded:
  assumes "isConnected c" and "client c" and "fc \<in> {0x03, 0x04}"
  shows "recorded c u (fc # PutUint16 a @ PutUint16 n) (responseOf fc a rep)
           (GetLastPackets (snd (readRegisters fc c formatTime u a n T rep)))"
proof -
  from assms(3) have "fc \<in> {0x01, 0x02, 0x03, 0x04, 0x05, 0x06, 0x0F, 0x10}" by auto
  from recordADU_recorded [OF this, of c "PutUint16 a @ PutUint16 n" rep u a]
  obtain c' where
    "recordADU c (fc # PutUint16 a @ PutUint16 n)
       (case rep of Failure err \<Rightarrow> None | Success d \<Rightarrow> Some d) u = Some c'"
    "recorded c u (fc # PutUint16 a @ PutUint16 n) (responseOf fc a rep) (GetLastPackets c')"
    by blast
  with assms(1,2) show ?thesis
    by (cases rep) (simp_all add: readRegisters_def Let_def)
qed

lemma readBits_recorded:
  assumes "isConnected c" and "client c" and "fc \<in> {0x01, 0x02}"
  shows "recorded c u (fc # PutUint16 a @ PutUint16 n) (responseOf fc a rep)
           (GetLastPackets (snd (readBits fc c u a n rep)))"
proof -
  from assms(3) have "fc \<in> {0x01, 0x02, 0x03, 0x04, 0x05, 0x06, 0x0F, 0x10}" by auto
  from recordADU_recorded [OF this, of c "PutUint16 a @ PutUint16 n" rep u a]
  obtain c' where
    "recordADU c (fc # PutUint16 a @ PutUint16 n)
       (case rep of Failure err \<Rightarrow> None | Success d \<Rightarrow> Some d) u = Some c'"
    "recorded c u (fc # PutUint16 a @ PutUint16 n) (responseOf fc a rep) (GetLastPackets c')"
    by blast
  with assms(1,2) show ?thesis
    by (cases rep) (simp_all add: readBits_def Let_def)
qed

lemma writeExchange_recorded:
  assumes "client c" and "fc \<in> {0x05, 0x06, 0x0F, 0x10}"
  shows "recorded c u (fc # rest) (responseOf fc a rep)
           (GetLastPackets (snd (writeExchange c (fc # rest) u rep)))"
proof -
  from assms(2) have "fc \<in> {0x01, 0x02, 0x03, 0x04, 0x05, 0x06, 0x0F, 0x10}" by auto
  from recordADU_recorded [OF this, of c rest rep u a]
  obtain c' where
    "recordADU c (fc # rest) (case rep of Failure err \<Rightarrow> None | Success d \<Rightarrow> Some d) u = Some c'"
    "recorded c u (fc # rest) (responseOf fc a rep) (GetLastPackets c')"
    by blast
  with assms(1) show ?thesis
    by (cases rep) (simp_all add: writeExchange_def)
qed

lemma length_uint16ArrayToBytes: "length (uint16ArrayToBytes regs) = 2 * length regs"
  by (induction regs) (simp_all add: uint16ArrayToBytes_def PutUint16_def)

lemma WriteHoldingRegisters_recorded:
  assumes "isConnected c" and "client c" and "ConvertToRegisters (converter c) v = Inr regs"
  shows "recorded c u (writeRegistersRequest a regs) (responseOf (writeRegistersCode regs) a rep)
           (GetLastPackets (snd (WriteHoldingRegisters c u a v rep)))"
proof (cases "(of_nat (length regs) :: uint16) = 1")
  case True
  then obtain r rs where regs: "regs = r # rs" by (cases regs) auto
  let ?rest = "PutUint16 a @ PutUint16 r"
  have "recorded c u (0x06 # ?rest) (responseOf 0x06 a rep)
          (GetLastPackets (snd (writeExchange c (0x06 # ?rest) u rep)))"
    by (rule writeExchange_recorded [OF assms(2)]) simp
  moreover have "take 2 (uint16ArrayToBytes regs @ [0, 0]) = PutUint16 r"
    by (simp add: regs uint16ArrayToBytes_def PutUint16_def)
  ultimately show ?thesis using True assms(1,3) regs
    by (simp add: WriteHoldingRegisters_def Let_def writeRegistersRequest_def
        writeRegistersCode_def)
next
  case False
  let ?rest = "PutUint16 a @ PutUint16 (of_nat (length regs))
               @ [of_nat (2 * length regs)] @ concat (map PutUint16 regs)"
  have "recorded c u (0x10 # ?rest) (responseOf 0x10 a rep)
          (GetLastPackets (snd (writeExchange c (0x10 # ?rest) u rep)))"
    by (rule writeExchange_recorded [OF assms(2)]) simp
  moreover have "uint16ArrayToBytes regs = concat (map PutUint16 regs)"
    by (simp add: uint16ArrayToBytes_def)
  moreover have "length (concat (map PutUint16 regs)) = 2 * length regs"
    using length_uint16ArrayToBytes [of regs] by (simp add: uint16ArrayToBytes_def)
  ultimately show ?thesis using False assms(1,3)
    by (simp add: WriteHoldingRegisters_def Let_def writeRegistersRequest_def
        writeRegistersCode_def)
qed

lemma WriteCoils_recorded:
  assumes "isConnected c" and "client c"
  shows "recorded c u (writeCoilsRequest a vals) (responseOf (writeCoilsCode vals) a rep)
           (GetLastPackets (snd (WriteCoils c u a vals rep)))"
proof (cases "(of_nat (length vals) :: uint16) = 1")
  case True
  then obtain v0 vs where vals: "vals = v0 # vs" by (cases vals) auto
  let ?rest = "PutUint16 a @ PutUint16 (if v0 then 0xFF00 else 0x0000)"
  have "recorded c u (0x05 # ?rest) (responseOf 0x05 a rep)
          (GetLastPackets (snd (writeExchange c (0x05 # ?rest) u rep)))"
    by (rule writeExchange_recorded [OF assms(2)]) simp
  moreover have "PutUint16 (if v0 then 0xFF00 else 0x0000)
                 = (if v0 then [0xFF, 0x00] else [0x00, 0x00])"
    by (simp add: PutUint16_def)
  ultimately show ?thesis using True assms(1) vals
    by (simp add: WriteCoils_def Let_def writeCoilsRequest_def writeCoilsCode_def)
next
  case False
  let ?n = "(length vals + 7) div 8"
  let ?rest = "PutUint16 a @ PutUint16 (of_nat (length vals)) @ [of_nat ?n]
               @ map (coilByte vals) [0..<?n]"
  have "recorded c u (0x0F # ?rest) (responseOf 0x0F a rep)
          (GetLastPackets (snd (writeExchange c (0x0F # ?rest) u rep)))"
    by (rule writeExchange_recorded [OF assms(2)]) simp
  then show ?thesis using False assms(1)
    by (simp add: WriteCoils_def Let_def writeCoilsRequest_def writeCoilsCode_def
        packCoils_coilByte)
qed

lemma unrecorded:
  assumes "\<not> isConnected c"
  shows "GetLastPackets (snd (ReadHoldingRegisters c formatTime u a n T rep)) = GetLastPackets c"
    and "GetLastPackets (snd (ReadInputRegisters c formatTime u a n T rep)) = GetLastPackets c"
    and "GetLastPackets (snd (ReadCoils c u a n rep)) = GetLastPackets c"
    and "GetLastPackets (snd (ReadDiscreteInputs c u a n rep)) = GetLastPackets c"
    and "GetLastPackets (snd (WriteHoldingRegisters c u a v rep)) = GetLastPackets c"
    and "GetLastPackets (snd (WriteCoils c u a vals rep)) = GetLastPackets c"
  using assms
  by (simp_all add: ReadHoldingRegisters_def ReadInputRegisters_def readRegisters_def
      ReadCoils_def ReadDiscreteInputs_def readBits_def WriteHoldingRegisters_def WriteCoils_def)

lemma unrecorded_conversion:
  assumes "ConvertToRegisters (converter c) v = Inl err"
  shows "GetLastPackets (snd (WriteHoldingRegisters c u a v rep)) = GetLastPackets c"
  using assms by (simp add: WriteHoldingRegisters_def)

text \<open>
  C6, as amended. On a client that is connected and holds its library client, each of the
  six calls records the request ADU of its request PDU as the last sent packet, and as the
  last received packet the response ADU after a success, or nil after a failure;
  \<open>WriteHoldingRegisters\<close> does so when its value converts to registers. A call on a
  client that is not connected, and a \<open>WriteHoldingRegisters\<close> whose value does not
  convert, leave both packets as they were.
\<close>

theorem calls_record_last_exchange:
  "(isConnected c \<and> client c \<longrightarrow>
      recorded c u (0x03 # PutUint16 a @ PutUint16 n) (responseOf 0x03 a rep)
        (GetLastPackets (snd (ReadHoldingRegisters c formatTime u a n T rep)))
      \<and> recorded c u (0x04 # PutUint16 a @ PutUint16 n) (responseOf 0x04 a rep)
          (GetLastPackets (snd (ReadInputRegisters c formatTime u a n T rep)))
      \<and> recorded c u (0x01 # PutUint16 a @ PutUint16 n) (responseOf 0x01 a rep)
          (GetLastPackets (snd (ReadCoils c u a n rep)))
      \<and> recorded c u (0x02 # PutUint16 a @ PutUint16 n) (responseOf 0x02 a rep)
          (GetLastPackets (snd (ReadDiscreteInputs c u a n rep)))
      \<and> (\<forall>regs. ConvertToRegisters (converter c) v = Inr regs \<longrightarrow>
            recorded c u (writeRegistersRequest a regs)
              (responseOf (writeRegistersCode regs) a rep)
              (GetLastPackets (snd (WriteHoldingRegisters c u a v rep))))
      \<and> recorded c u (writeCoilsRequest a vals) (responseOf (writeCoilsCode vals) a rep)
          (GetLastPackets (snd (WriteCoils c u a vals rep))))
   \<and> (\<not> isConnected c \<longrightarrow>
        GetLastPackets (snd (ReadHoldingRegisters c formatTime u a n T rep)) = GetLastPackets c
        \<and> GetLastPackets (snd (ReadInputRegisters c formatTime u a n T rep)) = GetLastPackets c
        \<and> GetLastPackets (snd (ReadCoils c u a n rep)) = GetLastPackets c
        \<and> GetLastPackets (snd (ReadDiscreteInputs c u a n rep)) = GetLastPackets c
        \<and> GetLastPackets (snd (WriteHoldingRegisters c u a v rep)) = GetLastPackets c
        \<and> GetLastPackets (snd (WriteCoils c u a vals rep)) = GetLastPackets c)
   \<and> (\<forall>err. ConvertToRegisters (converter c) v = Inl err \<longrightarrow>
        GetLastPackets (snd (WriteHoldingRegisters c u a v rep)) = GetLastPackets c)"
proof (intro conjI impI allI)
  assume h: "isConnected c \<and> client c"
  then have ic: "isConnected c" and cl: "client c" by simp_all
  show "recorded c u (0x03 # PutUint16 a @ PutUint16 n) (responseOf 0x03 a rep)
        (GetLastPackets (snd (ReadHoldingRegisters c formatTime u a n T rep)))"
    unfolding ReadHoldingRegisters_def by (rule readRegisters_recorded [OF ic cl]) simp
  show "recorded c u (0x04 # PutUint16 a @ PutUint16 n) (responseOf 0x04 a rep)
          (GetLastPackets (snd (ReadInputRegisters c formatTime u a n T rep)))"
    unfolding ReadInputRegisters_def by (rule readRegisters_recorded [OF ic cl]) simp
  show "recorded c u (0x01 # PutUint16 a @ PutUint16 n) (responseOf 0x01 a rep)
          (GetLastPackets (snd (ReadCoils c u a n rep)))"
    unfolding ReadCoils_def by (rule readBits_recorded [OF ic cl]) simp
  show "recorded c u (0x02 # PutUint16 a @ PutUint16 n) (responseOf 0x02 a rep)
          (GetLastPackets (snd (ReadDiscreteInputs c u a n rep)))"
    unfolding ReadDiscreteInputs_def by (rule readBits_recorded [OF ic cl]) simp
  show "recorded c u (writeCoilsRequest a vals) (responseOf (writeCoilsCode vals) a rep)
          (GetLastPackets (snd (WriteCoils c u a vals rep)))"
    by (rule WriteCoils_recorded [OF ic cl])
  show "recorded c u (writeRegistersRequest a regs)
              (responseOf (writeRegistersCode regs) a rep)
              (GetLastPackets (snd (WriteHoldingRegisters c u a v rep)))"
    if "ConvertToRegisters (converter c) v = Inr regs" for regs
    by (rule WriteHoldingRegisters_recorded [OF ic cl that])
qed (simp_all add: unrecorded unrecorded_conversion)

text \<open>
  On a client connected over TCP: a read that succeeds, a write of nine coils that
  succeeds and a write of one register that times out. On a client connected over RTU: a
  write of two registers that succeeds. A read on a client that was never connected, and
  a write of a byte slice, which does not convert.
\<close>

theorem calls_record_last_exchange_witness:
  "GetLastPackets (snd (ReadHoldingRegisters (snd (ConnectTCP NewClient None)) (\<lambda>t. [])
                          0x01 0 2 UINT32 (Success [0x00, 0x01, 0x00, 0x02])))
     = (Some [0x00, 0x01, 0x00, 0x00, 0x00, 0x06, 0x01, 0x03, 0x00, 0x00, 0x00, 0x02],
        Some [0x00, 0x01, 0x00, 0x00, 0x00, 0x07, 0x01, 0x03, 0x04, 0x00, 0x01, 0x00, 0x02])
   \<and> recorded (snd (ConnectTCP NewClient None)) 0x01 (0x03 # PutUint16 0 @ PutUint16 2)
         (responseOf 0x03 0 (Success [0x00, 0x01, 0x00, 0x02]))
         (GetLastPackets (snd (ReadHoldingRegisters (snd (ConnectTCP NewClient None)) (\<lambda>t. [])
                                 0x01 0 2 UINT32 (Success [0x00, 0x01, 0x00, 0x02]))))
   \<and> writeCoilsRequest 0x0010 [True, False, True, True, False, False, False, False, True]
     = [0x0F, 0x00, 0x10, 0x00, 0x09, 0x02, 0x0D, 0x01]
   \<and> recorded (snd (ConnectTCP NewClient None)) 0x01
         (writeCoilsRequest 0x0010 [True, False, True, True, False, False, False, False, True])
         (responseOf
            (writeCoilsCode [True, False, True, True, False, False, False, False, True])
            0x0010 (Success [0x00, 0x09]))
         (GetLastPackets (snd (WriteCoils (snd (ConnectTCP NewClient None)) 0x01 0x0010
                                 [True, False, True, True, False, False, False, False, True]
                                 (Success [0x00, 0x09]))))
   \<and> GetLastPackets (snd (WriteHoldingRegisters (snd (ConnectTCP NewClient None))
                            0x01 0 (Uint16Slice [0x0007]) (Failure Timeout)))
     = (Some [0x00, 0x01, 0x00, 0x00, 0x00, 0x06, 0x01, 0x06, 0x00, 0x00, 0x00, 0x07], None)
   \<and> recorded (snd (ConnectTCP NewClient None)) 0x01 (writeRegistersRequest 0 [0x0007])
         (responseOf (writeRegistersCode [0x0007]) 0 (Failure Timeout))
         (GetLastPackets (snd (WriteHoldingRegisters (snd (ConnectTCP NewClient None))
                                 0x01 0 (Uint16Slice [0x0007]) (Failure Timeout))))
   \<and> writeRegistersRequest 0x0002 [0x0007, 0x0008]
     = [0x10, 0x00, 0x02, 0x00, 0x02, 0x04, 0x00, 0x07, 0x00, 0x08]
   \<and> recorded (snd (ConnectRTU NewClient None)) 0x01
         (writeRegistersRequest 0x0002 [0x0007, 0x0008])
         (responseOf (writeRegistersCode [0x0007, 0x0008]) 0x0002 (Success [0x00, 0x02]))
         (GetLastPackets (snd (WriteHoldingRegisters (snd (ConnectRTU NewClient None))
                                 0x01 0x0002 (Uint16Slice [0x0007, 0x0008])
                                 (Success [0x00, 0x02]))))
   \<and> GetLastPackets (snd (ReadCoils NewClient 0x01 0 8 (Success [0xFF]))) = (None, None)
   \<and> GetLastPackets (snd (WriteHoldingRegisters (snd (ConnectTCP NewClient None))
                            0x01 0 (ByteSlice [0x07]) (Success [0x00, 0x00, 0x00, 0x01])))
     = (None, None)"
proof -
  let ?cl = "snd (ConnectTCP NewClient None)"
  let ?rtu = "snd (ConnectRTU NewClient None)"
  let ?nine = "[True, False, True, True, False, False, False, False, True]"
  have pre: "isConnected ?cl \<and> client ?cl"
    by (simp add: ConnectTCP_def NewClient_def)
  have pre': "isConnected ?rtu \<and> client ?rtu"
    by (simp add: ConnectRTU_def NewClient_def)
  have nc: "\<not> isConnected NewClient" by (simp add: NewClient_def)
  have g0: "GetLastPackets NewClient = (None, None)"
    by (simp add: GetLastPackets_def NewClient_def)
  have g1: "GetLastPackets ?cl = (None, None)"
    by (simp add: GetLastPackets_def ConnectTCP_def NewClient_def)
  have cv: "ConvertToRegisters (converter ?cl) (Uint16Slice [0x0007]) = Inr [0x0007]"
    by simp
  have cv': "ConvertToRegisters (converter ?rtu) (Uint16Slice [0x0007, 0x0008])
             = Inr [0x0007, 0x0008]"
    by simp
  have ce: "ConvertToRegisters (converter ?cl) (ByteSlice [0x07]) = Inl UnsupportedConversion"
    by simp
  from calls_record_last_exchange
         [where c = "?cl" and u = "0x01" and a = "0" and n = "2"
            and rep = "Success [0x00, 0x01, 0x00, 0x02]" and formatTime = "\<lambda>t. []"
            and T = "UINT32"] pre
  have r1: "recorded ?cl 0x01 (0x03 # PutUint16 0 @ PutUint16 2)
         (responseOf 0x03 0 (Success [0x00, 0x01, 0x00, 0x02]))
         (GetLastPackets (snd (ReadHoldingRegisters ?cl (\<lambda>t. [])
                                 0x01 0 2 UINT32 (Success [0x00, 0x01, 0x00, 0x02]))))"
    by blast
  from calls_record_last_exchange
         [where c = "?cl" and u = "0x01" and a = "0x0010" and rep = "Success [0x00, 0x09]"
            and vals = "?nine"] pre
  have r2: "recorded ?cl 0x01 (writeCoilsRequest 0x0010 ?nine)
         (responseOf (writeCoilsCode ?nine) 0x0010 (Success [0x00, 0x09]))
         (GetLastPackets (snd (WriteCoils ?cl 0x01 0x0010 ?nine (Success [0x00, 0x09]))))"
    by blast
  from calls_record_last_exchange
         [where c = "?cl" and u = "0x01" and a = "0" and rep = "Failure Timeout"
            and v = "Uint16Slice [0x0007]"] pre cv
  have r3: "recorded ?cl 0x01 (writeRegistersRequest 0 [0x0007])
         (responseOf (writeRegistersCode [0x0007]) 0 (Failure Timeout))
         (GetLastPackets (snd (WriteHoldingRegisters ?cl
                                 0x01 0 (Uint16Slice [0x0007]) (Failure Timeout))))"
    by blast
  from calls_record_last_exchange
         [where c = "?rtu" and u = "0x01" and a = "0x0002" and rep = "Success [0x00, 0x02]"
            and v = "Uint16Slice [0x0007, 0x0008]"] pre' cv'
  have r4: "recorded ?rtu 0x01 (writeRegistersRequest 0x0002 [0x0007, 0x0008])
         (responseOf (writeRegistersCode [0x0007, 0x0008]) 0x0002 (Success [0x00, 0x02]))
         (GetLastPackets (snd (WriteHoldingRegisters ?rtu 0x01 0x0002
                                 (Uint16Slice [0x0007, 0x0008]) (Success [0x00, 0x02]))))"
    by blast
  from calls_record_last_exchange
         [where c = NewClient and u = "0x01" and a = "0" and n = "8"
            and rep = "Success [0xFF]"] nc g0
  have u1: "GetLastPackets (snd (ReadCoils NewClient 0x01 0 8 (Success [0xFF]))) = (None, None)"
    by simp
  from calls_record_last_exchange
         [where c = "?cl" and u = "0x01" and a = "0"
            and rep = "Success [0x00, 0x00, 0x00, 0x01]" and v = "ByteSlice [0x07]"] ce g1
  have u2: "GetLastPackets (snd (WriteHoldingRegisters ?cl
                            0x01 0 (ByteSlice [0x07]) (Success [0x00, 0x00, 0x00, 0x01])))
     = (None, None)"
    by simp
  have p1: "GetLastPackets (snd (ReadHoldingRegisters ?cl (\<lambda>t. [])
                          0x01 0 2 UINT32 (Success [0x00, 0x01, 0x00, 0x02])))
     = (Some [0x00, 0x01, 0x00, 0x00, 0x00, 0x06, 0x01, 0x03, 0x00, 0x00, 0x00, 0x02],
        Some [0x00, 0x01, 0x00, 0x00, 0x00, 0x07, 0x01, 0x03, 0x04, 0x00, 0x01, 0x00, 0x02])"
    by code_simp
  have p2: "writeCoilsRequest 0x0010 ?nine
     = [0x0F, 0x00, 0x10, 0x00, 0x09, 0x02, 0x0D, 0x01]"
    by code_simp
  have p3: "GetLastPackets (snd (WriteHoldingRegisters ?cl
                            0x01 0 (Uint16Slice [0x0007]) (Failure Timeout)))
     = (Some [0x00, 0x01, 0x00, 0x00, 0x00, 0x06, 0x01, 0x06, 0x00, 0x00, 0x00, 0x07], None)"
    by code_simp
  have p4: "writeRegistersRequest 0x0002 [0x0007, 0x0008]
     = [0x10, 0x00, 0x02, 0x00, 0x02, 0x04, 0x00, 0x07, 0x00, 0x08]"
    by code_simp
  from p1 r1 p2 r2 p3 r3 p4 r4 u1 u2 show ?thesis by (intro conjI)
qed

text \<open>
  C6 as stated fails. A \<open>WriteHoldingRegisters\<close> of a boolean slice on a connected client
  fails in the conversion, and a read on a client that was never connected fails at the
  guard: both return their error and record no request.
\<close>

theorem calls_record_counterexample:
  "fst (WriteHoldingRegisters (snd (ConnectTCP NewClient None)) 0x01 0 (BoolSlice [True])
          (Success [0x00, 0x00, 0x00, 0x01]))
     = Some (ConversionFailed UnsupportedConversion)
   \<and> GetLastPackets
        (snd (WriteHoldingRegisters (snd (ConnectTCP NewClient None)) 0x01 0 (BoolSlice [True])
                (Success [0x00, 0x00, 0x00, 0x01])))
     = (None, None)
   \<and> fst (ReadHoldingRegisters NewClient (\<lambda>t. []) 0x01 0 1 UINT16 (Failure Timeout))
     = Inl NotConnected
   \<and> GetLastPackets
        (snd (ReadHoldingRegisters NewClient (\<lambda>t. []) 0x01 0 1 UINT16 (Failure Timeout)))
     = (None, None)"
  by code_simp

end
